theory Spec2Isabelle
  imports Complex_Main "HOL-Library.Sublist"
begin

section \<open>JavaScript string primitives\<close>

text \<open>
  A JavaScript string is modelled as a \<^typ>\<open>string\<close>: a list of 8-bit characters, each read
  as the UTF-16 code unit of the same number (U+0000 to U+00FF). On such strings
  \<open>s.length\<close> is \<^const>\<open>length\<close>, \<open>s.includes(t)\<close> is \<^term>\<open>sublist t s\<close> (\<open>includesStr\<close> below),
  \<open>s.startsWith(t)\<close> is \<^term>\<open>prefix t s\<close> and \<open>s.substring(0, n)\<close> is \<^term>\<open>take n s\<close>.
\<close>

text \<open>The characters matched by \<open>\s\<close> and removed by \<open>trim()\<close>: tab, line feed, vertical
  tab, form feed, carriage return, space and no-break space.\<close>

definition isSpace :: "char \<Rightarrow> bool" where
  "isSpace c = (of_char c \<in> {9, 10, 11, 12, 13, 32, 160 :: nat})"

text \<open>\<open>toLowerCase()\<close> on one code unit: A-Z and the Latin-1 capitals move up by 32.\<close>

definition toLowerChar :: "char \<Rightarrow> char" where
  "toLowerChar c = (let n = (of_char c :: nat) in
     if (65 \<le> n \<and> n \<le> 90) \<or> (192 \<le> n \<and> n \<le> 222 \<and> n \<noteq> 215)
     then char_of (n + 32) else c)"

definition toLowerCase :: "string \<Rightarrow> string" where
  "toLowerCase s = map toLowerChar s"

definition includesStr :: "string \<Rightarrow> string \<Rightarrow> bool" where
  "includesStr s t = sublist t s"

definition startsWith :: "string \<Rightarrow> string \<Rightarrow> bool" where
  "startsWith s t = prefix t s"

definition trimStart :: "string \<Rightarrow> string" where
  "trimStart s = dropWhile isSpace s"

definition trimEnd :: "string \<Rightarrow> string" where
  "trimEnd s = rev (dropWhile isSpace (rev s))"

definition trim :: "string \<Rightarrow> string" where
  "trim s = trimEnd (trimStart s)"

text \<open>\<open>xs.join(sep)\<close>.\<close>

fun join :: "string \<Rightarrow> string list \<Rightarrow> string" where
  "join sep [] = []"
| "join sep [x] = x"
| "join sep (x # y # ys) = x @ sep @ join sep (y # ys)"

text \<open>\<open>s.indexOf(t)\<close>: the first position where \<open>t\<close> starts, \<open>None\<close> for \<open>-1\<close>.\<close>

fun indexOf :: "string \<Rightarrow> string \<Rightarrow> nat option" where
  "indexOf [] t = (if t = [] then Some 0 else None)"
| "indexOf (c # cs) t =
     (if prefix t (c # cs) then Some 0
      else (case indexOf cs t of None \<Rightarrow> None | Some i \<Rightarrow> Some (Suc i)))"

text \<open>A number in a template literal: the decimal digits of a natural number.\<close>

fun showNat :: "nat \<Rightarrow> string" where
  "showNat n = (if n < 10 then [''0123456789'' ! n]
                else showNat (n div 10) @ [''0123456789'' ! (n mod 10)])"

declare showNat.simps [simp del]

section \<open>API types (types.ts)\<close>

datatype PerplexityModel = Sonar | SonarPro | SonarReasoningPro | SonarDeepResearch

fun modelName :: "PerplexityModel \<Rightarrow> string" where
  "modelName Sonar = ''sonar''"
| "modelName SonarPro = ''sonar-pro''"
| "modelName SonarReasoningPro = ''sonar-reasoning-pro''"
| "modelName SonarDeepResearch = ''sonar-deep-research''"

datatype Role = System | User | Assistant

record PerplexityMessage =
  role :: Role
  content :: string

record PerplexityUsage =
  prompt_tokens :: nat
  completion_tokens :: nat
  total_tokens :: nat
  citation_tokens :: "nat option"
  num_search_queries :: "nat option"
  reasoning_tokens :: "nat option"

record Choice =
  index :: nat
  message :: PerplexityMessage
  finish_reason :: string

record PerplexityResponse =
  r_id :: string
  r_model :: string
  created :: nat
  choices :: "Choice list"
  citations :: "string list option"
  related_questions :: "string list option"
  usage :: PerplexityUsage

text \<open>\<open>response.choices[0]?.message?.content || ''\<close>\<close>

definition firstContent :: "PerplexityResponse \<Rightarrow> string" where
  "firstContent r = (case choices r of [] \<Rightarrow> [] | c # _ \<Rightarrow> content (message c))"

text \<open>\<open>response.citations || []\<close>\<close>

definition citationsOf :: "PerplexityResponse \<Rightarrow> string list" where
  "citationsOf r = (case citations r of None \<Rightarrow> [] | Some cs \<Rightarrow> cs)"

section \<open>API client (perplexity.ts)\<close>

datatype Recency = Day | Week | Month | Year

text \<open>An optional property of a JavaScript object: the object lacks it, has it with the
  value \<open>undefined\<close>, or has it with a value. Reading a property that is absent or
  \<open>undefined\<close> gives \<open>undefined\<close>; the object spread copies every property the object
  has, also one whose value is \<open>undefined\<close>; \<open>JSON.stringify\<close> leaves out a property
  that is absent or \<open>undefined\<close>.\<close>

datatype 'a Field = Absent | Undefined | Value 'a

text \<open>\<open>PerplexityRequest\<close>, as the object \<open>search\<close> builds it.\<close>

record PerplexityRequest =
  q_model :: "PerplexityModel Field"
  q_messages :: "PerplexityMessage list"
  q_max_tokens :: "int Field"
  q_temperature :: "real Field"
  q_top_p :: "real Field"
  q_search_domain_filter :: "string list Field"
  q_search_recency_filter :: "Recency Field"
  q_return_citations :: "bool Field"
  q_return_images :: "bool Field"
  q_return_related_questions :: "bool Field"
  q_stream :: "bool Field"

text \<open>\<open>Partial<PerplexityRequest>\<close>, the \<open>options\<close> of \<open>search\<close>.\<close>

record RequestOptions =
  o_model :: "PerplexityModel Field"
  o_messages :: "PerplexityMessage list Field"
  o_max_tokens :: "int Field"
  o_temperature :: "real Field"
  o_top_p :: "real Field"
  o_search_domain_filter :: "string list Field"
  o_search_recency_filter :: "Recency Field"
  o_return_citations :: "bool Field"
  o_return_images :: "bool Field"
  o_return_related_questions :: "bool Field"
  o_stream :: "bool Field"

definition noOptions :: RequestOptions where
  "noOptions = \<lparr>o_model = Absent, o_messages = Absent, o_max_tokens = Absent,
     o_temperature = Absent, o_top_p = Absent, o_search_domain_filter = Absent,
     o_search_recency_filter = Absent, o_return_citations = Absent,
     o_return_images = Absent, o_return_related_questions = Absent, o_stream = Absent\<rparr>"

definition SYSTEM_PROMPTS_general :: string where
  "SYSTEM_PROMPTS_general = ''You are a research assistant. Provide comprehensive, well-cited answers. Be thorough but concise.''"

text \<open>One property under the object spread \<open>...restOptions\<close> at the end of the object
  literal: a property the options have, with a value or with \<open>undefined\<close>, replaces the
  one written before it; a property they lack leaves it as written.\<close>

definition spreadOver :: "'a Field \<Rightarrow> 'a Field \<Rightarrow> 'a Field" where
  "spreadOver opt written =
     (case opt of Absent \<Rightarrow> written | Undefined \<Rightarrow> Undefined | Value v \<Rightarrow> Value v)"

text \<open>The request that \<open>search\<close> builds (the statements of \<open>search\<close> before the
  \<open>fetch\<close>). \<open>restOptions\<close> is \<open>options\<close> without \<open>messages\<close>. The defaults are
  computed from what reading the options gives (\<open>||\<close> also replaces 0, \<open>??\<close> only
  \<open>undefined\<close>), written into the object, and then the spread runs over them.\<close>

definition buildRequest ::
  "string \<Rightarrow> PerplexityModel \<Rightarrow> RequestOptions \<Rightarrow> PerplexityRequest" where
  "buildRequest query model options =
     (let systemPrompt =
            (case o_messages options of
               Value (m # _) \<Rightarrow>
                 if role m = System then content m else SYSTEM_PROMPTS_general
             | _ \<Rightarrow> SYSTEM_PROMPTS_general);
          max_tokens = (case o_max_tokens options of
                          Value v \<Rightarrow> if v \<noteq> 0 then v else 4000 | _ \<Rightarrow> 4000);
          temperature = (case o_temperature options of Value t \<Rightarrow> t | _ \<Rightarrow> 0.2);
          return_citations = (case o_return_citations options of
                                Value b \<Rightarrow> b | _ \<Rightarrow> True)
      in \<lparr>q_model = spreadOver (o_model options) (Value model),
          q_messages = [\<lparr>role = System, content = systemPrompt\<rparr>,
                        \<lparr>role = User, content = query\<rparr>],
          q_max_tokens = spreadOver (o_max_tokens options) (Value max_tokens),
          q_temperature = spreadOver (o_temperature options) (Value temperature),
          q_top_p = spreadOver (o_top_p options) Absent,
          q_search_domain_filter = spreadOver (o_search_domain_filter options) Absent,
          q_search_recency_filter = spreadOver (o_search_recency_filter options) Absent,
          q_return_citations =
            spreadOver (o_return_citations options) (Value return_citations),
          q_return_images = spreadOver (o_return_images options) Absent,
          q_return_related_questions =
            spreadOver (o_return_related_questions options) Absent,
          q_stream = spreadOver (o_stream options) Absent\<rparr>)"

text \<open>The world outside: what \<open>fetch\<close> does with a request, given the requests sent
  before it. It throws, or replies with a status, a body text and the body parsed as a
  response (\<open>None\<close> when \<open>response.json()\<close> rejects).\<close>

datatype FetchOutcome =
  FetchThrows string
| HttpReply nat string "PerplexityResponse option"

type_synonym Fetch = "PerplexityRequest list \<Rightarrow> PerplexityRequest \<Rightarrow> FetchOutcome"

datatype ClientError =
  NetworkError string
| PerplexityAPIError nat string
| JsonError

text \<open>\<open>search\<close>: the result or the error thrown, and the log of requests sent so far.\<close>

definition search ::
  "Fetch \<Rightarrow> PerplexityRequest list \<Rightarrow> string \<Rightarrow> PerplexityModel \<Rightarrow> RequestOptions
   \<Rightarrow> (ClientError + PerplexityResponse) \<times> PerplexityRequest list" where
  "search fetch sent query model options =
     (let request = buildRequest query model options;
          sent' = sent @ [request]
      in case fetch sent request of
           FetchThrows errorMsg \<Rightarrow>
             (Inl (NetworkError (''Network error calling Perplexity API: '' @ errorMsg)), sent')
         | HttpReply status errorText json \<Rightarrow>
             if \<not> (200 \<le> status \<and> status \<le> 299)
             then (Inl (PerplexityAPIError status
                     (''Perplexity API error ('' @ showNat status @ ''): '' @ errorText)), sent')
             else (case json of None \<Rightarrow> (Inl JsonError, sent')
                   | Some response \<Rightarrow> (Inr response, sent')))"

text \<open>\<open>s.split(/\s+/)\<close>: the pieces between runs of whitespace; a run at either end
  leaves an empty piece there.\<close>

function splitWhitespace :: "string \<Rightarrow> string list" where
  "splitWhitespace [] = [[]]"
| "splitWhitespace (c # cs) =
     (if isSpace c then [] # splitWhitespace (dropWhile isSpace cs)
      else (case splitWhitespace cs of [] \<Rightarrow> [[c]] | t # ts \<Rightarrow> (c # t) # ts))"
  by pat_completeness auto
termination
  by (relation "measure length") (auto simp: le_imp_less_Suc length_dropWhile_le)

record ModelChoice =
  recommended :: PerplexityModel
  reason :: string

definition analyzeQueryForModel :: "string \<Rightarrow> ModelChoice" where
  "analyzeQueryForModel query =
     (let queryLower = toLowerCase query;
          wordCount = length (splitWhitespace query)
      in if includesStr queryLower ''comprehensive'' \<or>
            includesStr queryLower ''exhaustive'' \<or>
            includesStr queryLower ''deep dive'' \<or>
            includesStr queryLower ''research report'' \<or>
            includesStr queryLower ''due diligence'' \<or>
            includesStr queryLower ''market analysis''
         then \<lparr>recommended = SonarDeepResearch,
               reason = ''Query requests comprehensive/exhaustive research''\<rparr>
         else if includesStr queryLower ''why'' \<or>
            includesStr queryLower ''how does'' \<or>
            includesStr queryLower ''explain'' \<or>
            includesStr queryLower ''analyze'' \<or>
            includesStr queryLower ''compare'' \<or>
            includesStr queryLower ''evaluate'' \<or>
            includesStr queryLower ''trade-off'' \<or>
            includesStr queryLower ''pros and cons'' \<or>
            includesStr queryLower ''debug'' \<or>
            includesStr queryLower ''troubleshoot'' \<or>
            includesStr queryLower ''root cause''
         then \<lparr>recommended = SonarReasoningPro,
               reason = ''Query requires reasoning, analysis, or causal explanation''\<rparr>
         else if wordCount < 10 \<and>
            (includesStr queryLower ''what is'' \<or>
             includesStr queryLower ''who is'' \<or>
             includesStr queryLower ''when did'' \<or>
             includesStr queryLower ''where is'' \<or>
             startsWith queryLower ''define '' \<or>
             includesStr queryLower ''current price'' \<or>
             includesStr queryLower ''latest'')
         then \<lparr>recommended = Sonar, reason = ''Simple factual lookup query''\<rparr>
         else \<lparr>recommended = SonarReasoningPro,
               reason = ''Default model for comprehensive analysis with reasoning traces''\<rparr>)"

text \<open>The keyword sets of the classification in the spec's words: a query matches a rule
  when its lower-cased text contains one of the rule's phrases.\<close>

definition deepResearchKeywords :: "string list" where
  "deepResearchKeywords = [''comprehensive'', ''exhaustive'', ''deep dive'',
     ''research report'', ''due diligence'', ''market analysis'']"

definition reasoningKeywords :: "string list" where
  "reasoningKeywords = [''why'', ''how does'', ''explain'', ''analyze'', ''compare'',
     ''evaluate'', ''trade-off'', ''pros and cons'', ''debug'', ''troubleshoot'',
     ''root cause'']"

definition matchesAny :: "string list \<Rightarrow> string \<Rightarrow> bool" where
  "matchesAny keywords query = list_ex (\<lambda>k. sublist k (toLowerCase query)) keywords"

definition factualLookup :: "string \<Rightarrow> bool" where
  "factualLookup query =
     (length (splitWhitespace query) < 10 \<and>
      (sublist ''what is'' (toLowerCase query) \<or>
       sublist ''who is'' (toLowerCase query) \<or>
       sublist ''when did'' (toLowerCase query) \<or>
       sublist ''where is'' (toLowerCase query) \<or>
       prefix ''define '' (toLowerCase query) \<or>
       sublist ''current price'' (toLowerCase query) \<or>
       sublist ''latest'' (toLowerCase query)))"

section \<open>Synthesis engine (synthesis.ts)\<close>

datatype SynthesisPattern =
  FactReasoning | QuickDeep | Truthtracer | MultiPerspective | UnknownPattern string

datatype Confidence = High | MediumHigh | Medium | Low

fun confidenceName :: "Confidence \<Rightarrow> string" where
  "confidenceName High = ''high''"
| "confidenceName MediumHigh = ''medium-high''"
| "confidenceName Medium = ''medium''"
| "confidenceName Low = ''low''"

record ModelResult =
  mr_model :: PerplexityModel
  mr_response :: PerplexityResponse
  mr_content :: string
  mr_citations :: "string list"

record Finding =
  f_model :: PerplexityModel
  f_content :: string
  f_citations :: "string list"

record SynthesisResult =
  summary :: string
  findings :: "Finding list"
  agreements :: "string list"
  conflicts :: "string list"
  confidence :: Confidence
  allCitations :: "string list"

record Consistency =
  c_agreements :: "string list"
  c_conflicts :: "string list"
  c_confidence :: Confidence

text \<open>\<open>getModelsForPattern\<close>: the \<open>default\<close> branch serves any value outside the four
  patterns.\<close>

fun getModelsForPattern :: "SynthesisPattern \<Rightarrow> PerplexityModel list" where
  "getModelsForPattern FactReasoning = [SonarPro, SonarReasoningPro]"
| "getModelsForPattern QuickDeep = [Sonar, SonarDeepResearch]"
| "getModelsForPattern Truthtracer = [SonarPro, SonarReasoningPro, SonarDeepResearch]"
| "getModelsForPattern MultiPerspective = [SonarPro, SonarReasoningPro]"
| "getModelsForPattern (UnknownPattern p) = [SonarReasoningPro]"

text \<open>\<open>deduplicateCitations\<close>: the filter callback reads and grows the set \<open>seen\<close>; the
  set is threaded through the traversal.\<close>

fun filterUnseen :: "string set \<Rightarrow> string list \<Rightarrow> string list" where
  "filterUnseen seen [] = []"
| "filterUnseen seen (url # urls) =
     (if url \<in> seen then filterUnseen seen urls
      else url # filterUnseen (insert url seen) urls)"

definition deduplicateCitations :: "string list \<Rightarrow> string list" where
  "deduplicateCitations cs = filterUnseen {} cs"

text \<open>\<open>commonCitations\<close> of \<open>analyzeConsistency\<close>: the citations of the first result that
  every result's citation set has. The caller has checked that there are two results;
  on no result the source would raise, which is \<open>[]\<close> here.\<close>

definition commonCitations :: "ModelResult list \<Rightarrow> string list" where
  "commonCitations results =
     (case results of [] \<Rightarrow> []
      | r0 # _ \<Rightarrow> filter (\<lambda>url. list_all (\<lambda>r. url \<in> set (mr_citations r)) results)
                    (mr_citations r0))"

text \<open>The depth test of \<open>analyzeConsistency\<close>: the standard deviation of the content
  lengths against half their mean. The source computes in double precision; the model
  computes in the reals.\<close>

definition depthVaries :: "ModelResult list \<Rightarrow> bool" where
  "depthVaries results =
     (let lengths = map (\<lambda>r. real (length (mr_content r))) results;
          avgLength = sum_list lengths / real (length lengths);
          variance = sum_list (map (\<lambda>b. (b - avgLength)\<^sup>2) lengths) / real (length lengths)
      in sqrt variance > avgLength * 0.5)"

definition analyzeConsistency :: "ModelResult list \<Rightarrow> Consistency" where
  "analyzeConsistency results =
     (if length results < 2
      then \<lparr>c_agreements = [], c_conflicts = [], c_confidence = Medium\<rparr>
      else
        let common = commonCitations results;
            agreements = (if length common > 2
                          then [showNat (length common) @ '' sources cited by all models'']
                          else []);
            conflicts = (if depthVaries results
                         then [''Significant variance in response depth between models'']
                         else []);
            confidence = (if length common > 3 \<and> length conflicts = 0 then High
                          else if length common > 1 then MediumHigh
                          else if length conflicts > 1 then Low
                          else Medium)
        in \<lparr>c_agreements = agreements, c_conflicts = conflicts, c_confidence = confidence\<rparr>)"

text \<open>The arrow between model names in the summary is U+2192, which is no 8-bit
  character; its UTF-8 bytes stand for it.\<close>

definition arrowSep :: string where
  "arrowSep = [CHR '' '', CHR 0xE2, CHR 0x86, CHR 0x92, CHR '' '']"

fun patternDesc :: "SynthesisPattern \<Rightarrow> string" where
  "patternDesc FactReasoning = ''Factual research followed by reasoning analysis''"
| "patternDesc QuickDeep = ''Quick assessment followed by deep research''"
| "patternDesc Truthtracer = ''Comprehensive fact-check with reasoning verification''"
| "patternDesc MultiPerspective = ''Multi-perspective analysis''"
| "patternDesc (UnknownPattern p) = ''Multi-model synthesis''"

text \<open>One numbered block of the summary; \<open>i\<close> is the index of the result.\<close>

definition summaryBlock :: "nat \<Rightarrow> ModelResult \<Rightarrow> string" where
  "summaryBlock i r =
     ''### '' @ showNat (i + 1) @ ''. '' @ modelName (mr_model r) @ [CHR 10, CHR 10]
     @ take 500 (mr_content r) @ (if length (mr_content r) > 500 then ''...'' else [])
     @ [CHR 10, CHR 10] @ ''*['' @ showNat (length (mr_citations r)) @ '' citations]*''
     @ [CHR 10]"

definition generateSummary ::
  "string \<Rightarrow> ModelResult list \<Rightarrow> SynthesisPattern \<Rightarrow> Confidence \<Rightarrow> string" where
  "generateSummary query results pattern conf =
     (let modelNames = join arrowSep (map (\<lambda>r. modelName (mr_model r)) results);
          totalCitations = card (set (concat (map mr_citations results)))
      in ''## Synthesis Summary'' @ [CHR 10, CHR 10]
         @ ''**Query**: '' @ query @ [CHR 10]
         @ ''**Pattern**: '' @ patternDesc pattern @ [CHR 10]
         @ ''**Models**: '' @ modelNames @ [CHR 10]
         @ ''**Total Sources**: '' @ showNat totalCitations @ [CHR 10]
         @ ''**Confidence**: '' @ confidenceName conf @ [CHR 10, CHR 10]
         @ ''---'' @ [CHR 10, CHR 10]
         @ join [CHR 10] (map (\<lambda>(i, r). summaryBlock i r) (enumerate 0 results)))"

definition combineResults ::
  "string \<Rightarrow> ModelResult list \<Rightarrow> SynthesisPattern \<Rightarrow> SynthesisResult" where
  "combineResults query results pattern =
     (let allC = deduplicateCitations (concat (map mr_citations results));
          fs = map (\<lambda>r. \<lparr>f_model = mr_model r, f_content = mr_content r,
                           f_citations = mr_citations r\<rparr>) results;
          cons = analyzeConsistency results;
          summ = generateSummary query results pattern (c_confidence cons)
      in \<lparr>summary = summ, findings = fs, agreements = c_agreements cons,
          conflicts = c_conflicts cons, confidence = c_confidence cons,
          allCitations = allC\<rparr>)"

text \<open>\<open>stripThinkingBlocks\<close>: \<open>replace(/<think>[\s\S]*?<\/think>/g, '')\<close> scans from the
  left; at an opening tag it drops up to the first closing tag after it, and keeps the
  character when none follows.\<close>

function stripThink :: "string \<Rightarrow> string" where
  "stripThink [] = []"
| "stripThink (c # cs) =
     (if prefix ''<think>'' (c # cs)
      then (case indexOf (drop 7 (c # cs)) ''</think>'' of
              None \<Rightarrow> c # stripThink cs
            | Some i \<Rightarrow> stripThink (drop (7 + i + 8) (c # cs)))
      else c # stripThink cs)"
  by pat_completeness auto
termination
  by (relation "measure length") auto

definition stripThinkingBlocks :: "string \<Rightarrow> string" where
  "stripThinkingBlocks text = trim (stripThink text)"

text \<open>The options \<open>synthesize\<close> passes to \<open>search\<close>: \<open>messages\<close> is a system message
  when a non-empty system prompt is given, and \<open>undefined\<close> otherwise.\<close>

definition synthesisOptions :: "string option \<Rightarrow> RequestOptions" where
  "synthesisOptions systemPrompt =
     noOptions\<lparr>o_messages :=
       (case systemPrompt of
          None \<Rightarrow> Undefined
        | Some p \<Rightarrow> if p = [] then Undefined
                    else Value [\<lparr>role = System, content = p\<rparr>])\<rparr>"

fun synthesizeLoop ::
  "Fetch \<Rightarrow> PerplexityRequest list \<Rightarrow> string \<Rightarrow> string option \<Rightarrow> PerplexityModel list
   \<Rightarrow> ModelResult list \<Rightarrow> (ClientError + ModelResult list) \<times> PerplexityRequest list" where
  "synthesizeLoop fetch sent query systemPrompt [] results = (Inr results, sent)"
| "synthesizeLoop fetch sent query systemPrompt (model # models) results =
     (case search fetch sent query model (synthesisOptions systemPrompt) of
        (Inl e, sent') \<Rightarrow> (Inl e, sent')
      | (Inr response, sent') \<Rightarrow>
          synthesizeLoop fetch sent' query systemPrompt models
            (results @ [\<lparr>mr_model = model, mr_response = response,
                          mr_content = stripThinkingBlocks (firstContent response),
                          mr_citations = citationsOf response\<rparr>]))"

definition synthesize ::
  "Fetch \<Rightarrow> PerplexityRequest list \<Rightarrow> string \<Rightarrow> SynthesisPattern \<Rightarrow> string option
   \<Rightarrow> (ClientError + SynthesisResult) \<times> PerplexityRequest list" where
  "synthesize fetch sent query pattern systemPrompt =
     (case synthesizeLoop fetch sent query systemPrompt (getModelsForPattern pattern) [] of
        (Inl e, sent') \<Rightarrow> (Inl e, sent')
      | (Inr results, sent') \<Rightarrow> (Inr (combineResults query results pattern), sent'))"

text \<open>The requests of a pattern's steps, in step order.\<close>
definition stepRequests ::
  "string \<Rightarrow> string option \<Rightarrow> PerplexityModel list \<Rightarrow> PerplexityRequest list" where
  "stepRequests query systemPrompt models =
     map (\<lambda>m. buildRequest query m (synthesisOptions systemPrompt)) models"


text \<open>The outcome of the API call of step \<open>k\<close>, made after the requests of the steps
  before it.\<close>

definition stepOutcome ::
  "Fetch \<Rightarrow> PerplexityRequest list \<Rightarrow> string \<Rightarrow> string option \<Rightarrow> PerplexityModel list \<Rightarrow> nat
   \<Rightarrow> ClientError + PerplexityResponse" where
  "stepOutcome fetch sent query systemPrompt models k =
     fst (search fetch (sent @ take k (stepRequests query systemPrompt models)) query
            (models ! k) (synthesisOptions systemPrompt))"

section \<open>Research store (research-store.ts)\<close>

text \<open>\<open>[a-z0-9]\<close> and \<open>\d\<close>.\<close>

definition isSlugChar :: "char \<Rightarrow> bool" where
  "isSlugChar c = (let n = (of_char c :: nat) in (97 \<le> n \<and> n \<le> 122) \<or> (48 \<le> n \<and> n \<le> 57))"

definition isDigit :: "char \<Rightarrow> bool" where
  "isDigit c = (let n = (of_char c :: nat) in 48 \<le> n \<and> n \<le> 57)"

text \<open>\<open>.replace(/[^a-z0-9]+/g, '-')\<close>: every maximal run of other characters becomes one
  hyphen.\<close>

function replaceNonAlnumRuns :: "string \<Rightarrow> string" where
  "replaceNonAlnumRuns [] = []"
| "replaceNonAlnumRuns (c # cs) =
     (if isSlugChar c then c # replaceNonAlnumRuns cs
      else CHR ''-'' # replaceNonAlnumRuns (dropWhile (\<lambda>d. \<not> isSlugChar d) cs))"
  by pat_completeness auto
termination
  by (relation "measure length") (auto simp: le_imp_less_Suc length_dropWhile_le)

text \<open>\<open>.replace(/^-|-$/g, '')\<close>: one hyphen at the start and one at the end are removed.\<close>

definition stripEdgeHyphens :: "string \<Rightarrow> string" where
  "stripEdgeHyphens s =
     (let s1 = (case s of [] \<Rightarrow> [] | c # cs \<Rightarrow> if c = CHR ''-'' then cs else s)
      in if s1 \<noteq> [] \<and> last s1 = CHR ''-'' then butlast s1 else s1)"

text \<open>The chain \<open>toLowerCase().replace(...).replace(...).substring(0, n)\<close> that
  \<open>saveRawResponse\<close> (with 30) and \<open>generateFilename\<close> (with 50) apply to the topic.\<close>

definition sanitizedTopic :: "nat \<Rightarrow> string \<Rightarrow> string" where
  "sanitizedTopic n topic = take n (stripEdgeHyphens (replaceNonAlnumRuns (toLowerCase topic)))"

text \<open>\<open>new Date().toISOString().split('T')[0]\<close>, from the ISO string of the clock.\<close>

definition isoDate :: "string \<Rightarrow> string" where
  "isoDate isoString = takeWhile (\<lambda>c. c \<noteq> CHR ''T'') isoString"

definition generateFilename :: "string \<Rightarrow> string \<Rightarrow> string" where
  "generateFilename nowIso topic = sanitizedTopic 50 topic @ ''-'' @ isoDate nowIso @ ''.md''"

text \<open>The local time read by \<open>generateTimestamp\<close>; \<open>lt_month\<close> is \<open>getMonth()\<close>, from 0.\<close>

record LocalTime =
  lt_year :: nat
  lt_month :: nat
  lt_date :: nat
  lt_hours :: nat
  lt_minutes :: nat
  lt_seconds :: nat

text \<open>\<open>String(n).padStart(2, '0')\<close>\<close>

definition pad2 :: "nat \<Rightarrow> string" where
  "pad2 n = (if length (showNat n) < 2 then ''0'' @ showNat n else showNat n)"

definition generateTimestamp :: "LocalTime \<Rightarrow> string" where
  "generateTimestamp now =
     showNat (lt_year now) @ pad2 (lt_month now + 1) @ pad2 (lt_date now) @ ''_''
     @ pad2 (lt_hours now) @ pad2 (lt_minutes now) @ pad2 (lt_seconds now)"

text \<open>The object \<open>saveRawResponse\<close> serialises.\<close>

record RawData =
  saved_at :: string
  rd_model :: PerplexityModel
  rd_topic :: string
  rd_response :: PerplexityResponse

text \<open>A file of the store: a thread file in the research directory or a backup in its
  \<open>raw\<close> subdirectory, by file name.\<close>

datatype Path = ThreadFile string | RawFile string

text \<open>What one call of \<open>saveResearch\<close> reads from outside the program: the clock, once per
  \<open>new Date()\<close>; the library functions whose results depend on the platform or on
  floating point (\<open>toLocaleString\<close>, the \<open>URL\<close> parser, \<open>toFixed\<close> in \<open>calculateCost\<close>,
  \<open>JSON.stringify\<close>); and which files the file system lets it write and read.\<close>

record Env =
  e_localTime :: LocalTime
  e_savedAt :: string
  e_fileIso :: string
  e_dualTimestamp :: string
  e_synthIso :: string
  e_calculateCost :: "PerplexityModel \<Rightarrow> nat \<Rightarrow> nat \<Rightarrow> string"
  e_toLocaleString :: "nat \<Rightarrow> string"
  e_hostname :: "string \<Rightarrow> string option"
  e_stringify :: "RawData \<Rightarrow> string"
  e_writable :: "Path \<Rightarrow> bool"
  e_readable :: "Path \<Rightarrow> bool"

text \<open>The file system: the content of each file that exists, and the files written so
  far, oldest first.\<close>

record FsState =
  files :: "Path \<Rightarrow> string option"
  writes :: "Path list"

datatype FsError = WriteFailed Path | ReadFailed Path

definition existsSync :: "FsState \<Rightarrow> Path \<Rightarrow> bool" where
  "existsSync fs p = (files fs p \<noteq> None)"

definition writeFileSync :: "Env \<Rightarrow> FsState \<Rightarrow> Path \<Rightarrow> string \<Rightarrow> FsError + FsState" where
  "writeFileSync env fs p d =
     (if e_writable env p
      then Inr (fs\<lparr>files := (files fs)(p \<mapsto> d), writes := writes fs @ [p]\<rparr>)
      else Inl (WriteFailed p))"

definition readFileSync :: "Env \<Rightarrow> FsState \<Rightarrow> Path \<Rightarrow> FsError + string" where
  "readFileSync env fs p =
     (case files fs p of
        None \<Rightarrow> Inl (ReadFailed p)
      | Some d \<Rightarrow> if e_readable env p then Inr d else Inl (ReadFailed p))"

text \<open>\<open>extractDomain\<close>: the host name without a leading \<open>www.\<close>, or the URL itself when
  it does not parse.\<close>

definition extractDomain :: "Env \<Rightarrow> string \<Rightarrow> string" where
  "extractDomain env url =
     (case e_hostname env url of
        None \<Rightarrow> url
      | Some h \<Rightarrow> if prefix ''www.'' h then drop 4 h else h)"

definition formatCitations :: "Env \<Rightarrow> string list \<Rightarrow> string" where
  "formatCitations env cs =
     (if cs = [] then ''*No citations provided*''
      else join [CHR 10, CHR 10]
             (map (\<lambda>(i, url). ''['' @ showNat (i + 1) @ ''] '' @ extractDomain env url
                              @ [CHR 10] @ ''    '' @ url)
                  (enumerate 0 cs)))"

definition saveRawResponse ::
  "Env \<Rightarrow> FsState \<Rightarrow> string \<Rightarrow> PerplexityResponse \<Rightarrow> PerplexityModel
   \<Rightarrow> FsError + (string \<times> FsState)" where
  "saveRawResponse env fs topic response model =
     (let timestamp = generateTimestamp (e_localTime env);
          filename = timestamp @ ''_'' @ sanitizedTopic 30 topic @ ''.json'';
          rawData = \<lparr>saved_at = e_savedAt env, rd_model = model, rd_topic = topic,
                     rd_response = response\<rparr>
      in case writeFileSync env fs (RawFile filename) (e_stringify env rawData) of
           Inl err \<Rightarrow> Inl err
         | Inr fs' \<Rightarrow> Inr (filename, fs'))"

text \<open>\<open>content.match(/^## Query \d+:/gm)\<close>: with the flag \<open>m\<close> the anchor matches at the
  start of the text and after a line terminator. \<open>matchesQueryHeader\<close> is the pattern at
  one position; \<open>countQueryHeaders\<close> counts the positions at a line start where it
  matches (the flag says whether the position is a line start).\<close>

definition isLineTerminator :: "char \<Rightarrow> bool" where
  "isLineTerminator c = (c = CHR 10 \<or> c = CHR 13)"

definition matchesQueryHeader :: "string \<Rightarrow> bool" where
  "matchesQueryHeader s =
     (prefix ''## Query '' s \<and>
      (let rest = drop 9 s; digits = takeWhile isDigit rest
       in digits \<noteq> [] \<and> prefix '':'' (drop (length digits) rest)))"

fun countQueryHeaders :: "bool \<Rightarrow> string \<Rightarrow> nat" where
  "countQueryHeaders atLineStart [] = 0"
| "countQueryHeaders atLineStart (c # cs) =
     (if atLineStart \<and> matchesQueryHeader (c # cs) then 1 else 0)
     + countQueryHeaders (isLineTerminator c) cs"

definition countQueriesInThread :: "Env \<Rightarrow> FsState \<Rightarrow> Path \<Rightarrow> FsError + nat" where
  "countQueriesInThread env fs filePath =
     (if \<not> existsSync fs filePath then Inr 0
      else case readFileSync env fs filePath of
             Inl err \<Rightarrow> Inl err
           | Inr text \<Rightarrow> Inr (countQueryHeaders True text))"

definition generateSynthesisSection :: "Env \<Rightarrow> nat \<Rightarrow> string" where
  "generateSynthesisSection env queryCount =
     ''## Synthesis (Updated: '' @ isoDate (e_synthIso env) @ '')'' @ [CHR 10, CHR 10]
     @ ''*'' @ showNat queryCount @ '' '' @ (if queryCount = 1 then ''query'' else ''queries'')
     @ '' in this thread*'' @ [CHR 10, CHR 10]
     @ ''### Key Conclusions'' @ [CHR 10]
     @ ''- *(Update after reviewing findings)*'' @ [CHR 10, CHR 10]
     @ ''### Open Questions'' @ [CHR 10]
     @ ''- *(What remains unresolved)*'' @ [CHR 10, CHR 10]
     @ ''### Confidence Assessment'' @ [CHR 10]
     @ ''- High confidence: *(topics)*'' @ [CHR 10]
     @ ''- Needs verification: *(topics)*'' @ [CHR 10]"

text \<open>An optional string argument that is truthy: given and not empty.\<close>

definition truthy :: "string option \<Rightarrow> bool" where
  "truthy s = (case s of None \<Rightarrow> False | Some t \<Rightarrow> t \<noteq> [])"

text \<open>The entry block of \<open>saveResearch\<close>, from its number, the name of the raw file and
  the arguments.\<close>

definition formatEntry ::
  "Env \<Rightarrow> nat \<Rightarrow> string \<Rightarrow> string \<Rightarrow> PerplexityResponse \<Rightarrow> PerplexityModel
   \<Rightarrow> string option \<Rightarrow> string option \<Rightarrow> string" where
  "formatEntry env queryNum rawFilename query response model modelRationale approvedPlan =
     (let timestamp = e_dualTimestamp env;
          text = stripThinkingBlocks (firstContent response);
          cites = citationsOf response;
          relatedQuestions = (case related_questions response of None \<Rightarrow> [] | Some qs \<Rightarrow> qs);
          u = usage response;
          cost = e_calculateCost env model (prompt_tokens u) (completion_tokens u);
          queryTitle = (if length query > 60 then take 60 query @ ''...'' else query)
      in ''## Query '' @ showNat queryNum @ '': '' @ queryTitle @ [CHR 10]
         @ ''**Timestamp**: '' @ timestamp @ [CHR 10]
         @ ''**Raw**: [raw/'' @ rawFilename @ ''](raw/'' @ rawFilename @ '')'' @ [CHR 10]
         @ ''**Model**: '' @ modelName model
         @ (if truthy modelRationale then '' ('' @ the modelRationale @ '')'' else [])
         @ '' | **Tokens**: '' @ e_toLocaleString env (total_tokens u)
         @ (case num_search_queries u of
              None \<Rightarrow> []
            | Some n \<Rightarrow> if n = 0 then [] else '' | **Searches**: '' @ showNat n)
         @ [CHR 10, CHR 10]
         @ (if truthy approvedPlan
            then ''### Approved Plan'' @ [CHR 10] @ the approvedPlan @ [CHR 10, CHR 10]
            else [])
         @ ''### Findings'' @ [CHR 10, CHR 10] @ text @ [CHR 10, CHR 10]
         @ ''### Citations'' @ [CHR 10, CHR 10] @ formatCitations env cites @ [CHR 10]
         @ (if length relatedQuestions > 0
            then [CHR 10] @ ''### Related Questions'' @ [CHR 10, CHR 10]
                 @ join [CHR 10] (map (\<lambda>(i, q). showNat (i + 1) @ ''. '' @ q)
                                      (enumerate 0 relatedQuestions))
                 @ [CHR 10]
            else [])
         @ [CHR 10] @ ''### Cost'' @ [CHR 10] @ cost @ [CHR 10, CHR 10]
         @ ''---'' @ [CHR 10, CHR 10])"

text \<open>The text \<open>saveResearch\<close> keeps of an existing thread: everything before the first
  \<open>## Synthesis\<close>, trimmed at the end, and two line feeds; all of it when the marker is
  absent.\<close>

definition withoutSynthesis :: "string \<Rightarrow> string" where
  "withoutSynthesis existingContent =
     (case indexOf existingContent ''## Synthesis'' of
        None \<Rightarrow> existingContent
      | Some synthesisIndex \<Rightarrow> trimEnd (take synthesisIndex existingContent) @ [CHR 10, CHR 10])"

text \<open>\<open>saveResearch\<close>: the path of the thread file or the file system error thrown, and
  the file system after the call.\<close>

definition saveResearch ::
  "Env \<Rightarrow> FsState \<Rightarrow> string \<Rightarrow> PerplexityResponse \<Rightarrow> PerplexityModel
   \<Rightarrow> string option \<Rightarrow> string option \<Rightarrow> string option \<Rightarrow> (FsError + Path) \<times> FsState" where
  "saveResearch env fs query response model systemPrompt modelRationale approvedPlan =
     (case saveRawResponse env fs query response model of
        Inl err \<Rightarrow> (Inl err, fs)
      | Inr (rawFilename, fs1) \<Rightarrow>
          let filePath = ThreadFile (generateFilename (e_fileIso env) query)
          in case countQueriesInThread env fs1 filePath of
               Inl err \<Rightarrow> (Inl err, fs1)
             | Inr n \<Rightarrow>
                 let queryNum = n + 1;
                     entry = formatEntry env queryNum rawFilename query response model
                               modelRationale approvedPlan
                 in if existsSync fs1 filePath
                    then (case readFileSync env fs1 filePath of
                            Inl err \<Rightarrow> (Inl err, fs1)
                          | Inr existingContent \<Rightarrow>
                              let updatedContent = withoutSynthesis existingContent @ entry
                                    @ generateSynthesisSection env queryNum
                              in (case writeFileSync env fs1 filePath updatedContent of
                                    Inl err \<Rightarrow> (Inl err, fs1)
                                  | Inr fs2 \<Rightarrow> (Inr filePath, fs2)))
                    else
                      let title = (if length query > 80 then take 80 query @ ''...''
                                   else query);
                          header = ''# '' @ title @ [CHR 10, CHR 10]
                            @ ''Research thread for this topic.'' @ [CHR 10]
                            @ (if truthy systemPrompt
                               then [CHR 10] @ ''Context: '' @ the systemPrompt else [])
                            @ [CHR 10, CHR 10] @ ''---'' @ [CHR 10, CHR 10]
                            @ entry @ generateSynthesisSection env queryNum
                      in (case writeFileSync env fs1 filePath header of
                            Inl err \<Rightarrow> (Inl err, fs1)
                          | Inr fs2 \<Rightarrow> (Inr filePath, fs2)))"

text \<open>The text of a new thread file before its first entry.\<close>

definition threadHeader :: "string \<Rightarrow> string option \<Rightarrow> string" where
  "threadHeader query systemPrompt =
     ''# '' @ (if length query > 80 then take 80 query @ ''...'' else query)
     @ [CHR 10, CHR 10] @ ''Research thread for this topic.'' @ [CHR 10]
     @ (if truthy systemPrompt then [CHR 10] @ ''Context: '' @ the systemPrompt else [])
     @ [CHR 10, CHR 10] @ ''---'' @ [CHR 10, CHR 10]"

text \<open>\<open>content.split('\n')\<close>\<close>

fun splitLines :: "string \<Rightarrow> string list" where
  "splitLines [] = [[]]"
| "splitLines (c # cs) =
     (if c = CHR 10 then [] # splitLines cs
      else (case splitLines cs of [] \<Rightarrow> [[c]] | l # ls \<Rightarrow> (c # l) # ls))"

text \<open>An entry of \<open>readdirSync\<close> on the research directory with the content of the file
  it names, and a result of \<open>searchResearch\<close> (without its \<open>topic\<close>, which no property
  below reads).\<close>

record DirEntry =
  d_name :: string
  d_isFile :: bool
  d_content :: string

record SearchHit =
  h_file :: string
  h_matches :: "string list"

definition isThreadFile :: "DirEntry \<Rightarrow> bool" where
  "isThreadFile e = (d_isFile e \<and> suffix ''.md'' (d_name e))"

text \<open>The context of line \<open>i\<close>: \<open>lines.slice(max(0, i - 1), min(lines.length, i + 2))\<close>
  joined by line feeds and trimmed.\<close>

definition contextAt :: "string list \<Rightarrow> nat \<Rightarrow> string" where
  "contextAt lines i =
     (let start = i - 1; stop = min (length lines) (i + 2)
      in trim (join [CHR 10] (take (stop - start) (drop start lines))))"

definition lineMatches :: "string list \<Rightarrow> string \<Rightarrow> bool" where
  "lineMatches searchTerms line =
     list_ex (\<lambda>t. includesStr (toLowerCase line) t) searchTerms"

text \<open>The inner loop of \<open>searchResearch\<close> over the line numbers still to visit, with the
  snippets collected so far.\<close>

fun collectMatches :: "string list \<Rightarrow> string list \<Rightarrow> nat list \<Rightarrow> string list \<Rightarrow> string list" where
  "collectMatches searchTerms lines [] matchingLines = matchingLines"
| "collectMatches searchTerms lines (i # rest) matchingLines =
     (if lineMatches searchTerms (lines ! i)
      then (let ctx = contextAt lines i
            in if ctx \<noteq> [] \<and> ctx \<notin> set matchingLines
               then collectMatches searchTerms lines rest (matchingLines @ [ctx])
               else collectMatches searchTerms lines rest matchingLines)
      else collectMatches searchTerms lines rest matchingLines)"

text \<open>The body of the outer loop for one file: \<open>None\<close> when the file is skipped.\<close>

definition searchFile :: "string list \<Rightarrow> DirEntry \<Rightarrow> SearchHit option" where
  "searchFile searchTerms e =
     (let contentLower = toLowerCase (d_content e)
      in if \<not> list_all (\<lambda>t. includesStr contentLower t) searchTerms then None
         else
           let lines = splitLines (d_content e);
               matchingLines = collectMatches searchTerms lines [0..<length lines] []
           in if length matchingLines > 0
              then Some \<lparr>h_file = d_name e, h_matches = take 5 matchingLines\<rparr>
              else None)"

definition searchResearch :: "DirEntry list \<Rightarrow> string \<Rightarrow> SearchHit list" where
  "searchResearch entries keywords =
     (let fileEntries = filter isThreadFile entries;
          searchTerms = splitWhitespace (toLowerCase keywords)
      in List.map_filter (searchFile searchTerms) fileEntries)"

text \<open>Step functions for evaluating the scans over long texts: each takes the
  outcome of the test at one position as an argument. The equations that connect them to
  the scans are proved in the section on evaluation.\<close>

definition prefixStep :: "bool \<Rightarrow> 'a list \<Rightarrow> 'a list \<Rightarrow> bool" where
  "prefixStep b xs ys = (b \<and> prefix xs ys)"

fun indexOfStep :: "bool \<Rightarrow> nat option \<Rightarrow> nat option" where
  "indexOfStep True r = Some 0"
| "indexOfStep False r = (case r of None \<Rightarrow> None | Some i \<Rightarrow> Some (Suc i))"

fun queryHeaderRest :: "bool \<Rightarrow> string \<Rightarrow> bool" where
  "queryHeaderRest False s = False"
| "queryHeaderRest True s =
     (let rest = drop 9 s; digits = takeWhile isDigit rest
      in digits \<noteq> [] \<and> prefix '':'' (drop (length digits) rest))"

fun queryHeaderAt :: "bool \<Rightarrow> string \<Rightarrow> nat" where
  "queryHeaderAt False s = 0"
| "queryHeaderAt True s = of_bool (matchesQueryHeader s)"

text \<open>The reference of the citation claim, in the spec's words: the first occurrence of
  a URL wins, later ones are dropped.\<close>

fun firstOccurrenceWins :: "string list \<Rightarrow> string list" where
  "firstOccurrenceWins [] = []"
| "firstOccurrenceWins (x # xs) = x # filter (\<lambda>y. y \<noteq> x) (firstOccurrenceWins xs)"

text \<open>The confidence ladder in the spec's words, on the number of common citations and the
  number of conflict notes.\<close>

definition confidenceLadder :: "nat \<Rightarrow> nat \<Rightarrow> Confidence" where
  "confidenceLadder nCommon nConflicts =
     (if nCommon > 3 \<and> nConflicts = 0 then High
      else if nCommon > 1 then MediumHigh
      else if nConflicts \<ge> 2 then Low
      else Medium)"

text \<open>The search claims in the spec's words. The terms are the pieces of the lower-cased
  keywords between runs of whitespace; every term occurs in a text when each is a
  substring of the lower-cased text; a text has a non-whitespace character. The window of
  line \<open>i\<close> is the line before it (when there is one), the line itself and the line after
  it (when there is one). The snippets of a text are the first five of its distinct
  non-empty windows, each joined by line feeds and trimmed, taken in file order over the
  lines in which some term occurs.\<close>

definition searchTermsOf :: "string \<Rightarrow> string list" where
  "searchTermsOf keywords = splitWhitespace (toLowerCase keywords)"

definition allTermsOccur :: "string \<Rightarrow> string \<Rightarrow> bool" where
  "allTermsOccur keywords text =
     list_all (\<lambda>t. sublist t (toLowerCase text)) (searchTermsOf keywords)"

definition hasNonSpace :: "string \<Rightarrow> bool" where
  "hasNonSpace s = list_ex (\<lambda>c. \<not> isSpace c) s"

definition lineWindow :: "string list \<Rightarrow> nat \<Rightarrow> string list" where
  "lineWindow lines i =
     (if i = 0 then [] else [lines ! (i - 1)]) @ [lines ! i]
     @ (if i + 1 < length lines then [lines ! (i + 1)] else [])"

definition snippetsOf :: "string \<Rightarrow> string \<Rightarrow> string list" where
  "snippetsOf keywords text =
     (let lines = splitLines text
      in take 5 (firstOccurrenceWins
           (filter (\<lambda>snippet. snippet \<noteq> [])
              (map (\<lambda>i. trim (join [CHR 10] (lineWindow lines i)))
                 (filter (\<lambda>i. list_ex (\<lambda>t. sublist t (toLowerCase (lines ! i)))
                                 (searchTermsOf keywords))
                    [0..<length lines])))))"

text \<open>The contexts the inner loop of \<open>searchResearch\<close> offers for collection, over the
  line numbers it visits.\<close>

definition candidateSnippets :: "string list \<Rightarrow> string list \<Rightarrow> nat list \<Rightarrow> string list" where
  "candidateSnippets searchTerms lines idxs =
     filter (\<lambda>ctx. ctx \<noteq> [])
       (map (contextAt lines) (filter (\<lambda>i. lineMatches searchTerms (lines ! i)) idxs))"

text \<open>Concrete steps for the examples: a response with no choices, and a step with given
  content and citations.\<close>

definition exampleResponse :: PerplexityResponse where
  "exampleResponse = \<lparr>r_id = ''r'', r_model = ''sonar'', created = 0, choices = [],
     citations = None, related_questions = None,
     usage = \<lparr>prompt_tokens = 0, completion_tokens = 0, total_tokens = 0,
              citation_tokens = None, num_search_queries = None,
              reasoning_tokens = None\<rparr>\<rparr>"

definition exampleStep :: "string \<Rightarrow> string list \<Rightarrow> ModelResult" where
  "exampleStep c cs = \<lparr>mr_model = SonarPro, mr_response = exampleResponse,
      mr_content = c, mr_citations = cs\<rparr>"

definition stepsRepeating :: "ModelResult list" where
  "stepsRepeating =
     [exampleStep ''abc'' [''a'', ''a'', ''b'', ''b''],
      exampleStep ''xyz'' [''a'', ''b'']]"

text \<open>A world where the reasoning model is unreachable and every other call
  succeeds.\<close>

definition failingFetch :: Fetch where
  "failingFetch sent request =
     (if q_model request = Value SonarReasoningPro then FetchThrows ''ECONNRESET''
      else HttpReply 200 [] (Some exampleResponse))"



definition exampleQuery :: string where
  "exampleQuery = ''comprehensive analysis of why the market crashed''"

text \<open>A concrete environment and an empty store for the examples.\<close>

definition exampleEnv :: Env where
  "exampleEnv = \<lparr>
     e_localTime = \<lparr>lt_year = 2026, lt_month = 10, lt_date = 2, lt_hours = 9,
                     lt_minutes = 5, lt_seconds = 7\<rparr>,
     e_savedAt = ''2026-11-02T09:05:07.000Z'',
     e_fileIso = ''2026-11-02T09:05:07.000Z'',
     e_dualTimestamp = ''2026-11-02T09:05:07.000Z (UTC 09:05:07)'',
     e_synthIso = ''2026-11-02T09:05:07.000Z'',
     e_calculateCost = (\<lambda>m p c. ''$0.0000''),
     e_toLocaleString = showNat,
     e_hostname = (\<lambda>url. None),
     e_stringify = (\<lambda>d. ''{}''),
     e_writable = (\<lambda>p. True),
     e_readable = (\<lambda>p. True)\<rparr>"

definition emptyFs :: FsState where
  "emptyFs = \<lparr>files = (\<lambda>p. None), writes = []\<rparr>"

definition synthesisResponse :: PerplexityResponse where
  "synthesisResponse = \<lparr>r_id = ''synthesis'', r_model = ''multi-model'', created = 0,
     choices = [\<lparr>index = 0,
                  message = \<lparr>role = Assistant, content = ''## Synthesis Summary''\<rparr>,
                  finish_reason = ''stop''\<rparr>],
     citations = Some [], related_questions = None,
     usage = \<lparr>prompt_tokens = 0, completion_tokens = 0, total_tokens = 0,
              citation_tokens = None, num_search_queries = None,
              reasoning_tokens = None\<rparr>\<rparr>"

text \<open>A query whose slug has a hyphen as its 50th character.\<close>

definition slugQuery :: string where
  "slugQuery = ''How does the Perplexity API handle rate limits in production?''"

text \<open>A save as the \<open>deep_research\<close> tool makes it: the response content is the synthesis
  summary, which starts with \<open>## Synthesis Summary\<close>.\<close>

definition deepResearchSave :: "FsState \<Rightarrow> (FsError + Path) \<times> FsState" where
  "deepResearchSave fs =
     saveResearch exampleEnv fs ''[Deep Research] x'' synthesisResponse SonarDeepResearch
       (Some ''Multi-model synthesis (quick-deep)'')
       (Some ''user-specified quick-deep pattern'') None"

definition examplePath :: Path where
  "examplePath = ThreadFile ''deep-research-x-2026-11-02.md''"

definition firstEntry :: string where
  "firstEntry =
     formatEntry exampleEnv 1 ''20261102_090507_deep-research-x.json'' ''[Deep Research] x''
       synthesisResponse SonarDeepResearch (Some ''user-specified quick-deep pattern'') None"

definition contentOf :: "FsState \<Rightarrow> Path \<Rightarrow> string" where
  "contentOf fs p = (case files fs p of None \<Rightarrow> [] | Some d \<Rightarrow> d)"

definition threadAfterFirst :: string where
  "threadAfterFirst = contentOf (snd (deepResearchSave emptyFs)) examplePath"

definition threadAfterSecond :: string where
  "threadAfterSecond =
     contentOf (snd (deepResearchSave (snd (deepResearchSave emptyFs)))) examplePath"

text \<open>The thread after the first save, the second entry, and the thread after the first
  save cut before its first \<open>## Synthesis\<close>.\<close>

definition firstThread :: string where
  "firstThread = threadHeader ''[Deep Research] x'' (Some ''Multi-model synthesis (quick-deep)'')
     @ firstEntry @ generateSynthesisSection exampleEnv 1"

definition secondEntry :: string where
  "secondEntry =
     formatEntry exampleEnv 2 ''20261102_090507_deep-research-x.json'' ''[Deep Research] x''
       synthesisResponse SonarDeepResearch (Some ''user-specified quick-deep pattern'') None"

definition cutThread :: string where
  "cutThread = ''# [Deep Research] x'' @ [CHR 10, CHR 10]
     @ ''Research thread for this topic.'' @ [CHR 10, CHR 10]
     @ ''Context: Multi-model synthesis (quick-deep)'' @ [CHR 10, CHR 10]
     @ ''---'' @ [CHR 10, CHR 10]
     @ ''## Query 1: [Deep Research] x'' @ [CHR 10]
     @ ''**Timestamp**: 2026-11-02T09:05:07.000Z (UTC 09:05:07)'' @ [CHR 10]
     @ ''**Raw**: [raw/20261102_090507_deep-research-x.json](raw/20261102_090507_deep-research-x.json)'' @ [CHR 10]
     @ ''**Model**: sonar-deep-research (user-specified quick-deep pattern) | **Tokens**: 0''
     @ [CHR 10, CHR 10] @ ''### Findings'' @ [CHR 10, CHR 10]"

text \<open>Entries of a research directory: a thread holding both terms on different lines, a
  thread holding one of them, the \<open>raw\<close> subdirectory, an empty thread and a thread of
  one line feed.\<close>

definition twoTermsThread :: DirEntry where
  "twoTermsThread = \<lparr>d_name = ''alpha-beta.md'', d_isFile = True,
     d_content = ''Alpha one'' @ [CHR 10] @ ''middle'' @ [CHR 10] @ ''BETA two''\<rparr>"

definition oneTermThread :: DirEntry where
  "oneTermThread = \<lparr>d_name = ''alpha.md'', d_isFile = True, d_content = ''only alpha''\<rparr>"

definition rawDirEntry :: DirEntry where
  "rawDirEntry = \<lparr>d_name = ''raw'', d_isFile = False, d_content = []\<rparr>"

definition emptyThread :: DirEntry where
  "emptyThread = \<lparr>d_name = ''empty.md'', d_isFile = True, d_content = []\<rparr>"

definition blankThread :: DirEntry where
  "blankThread = \<lparr>d_name = ''blank.md'', d_isFile = True, d_content = [CHR 10]\<rparr>"

section \<open>Evaluation\<close>

text \<open>Code equations without a conditional on a long text, so that the scans evaluate
  in linear time.\<close>

lemma prefix_step [code]:
  "prefix [] ys = True"
  "prefix (x # xs) [] = False"
  "prefix (x # xs) (y # ys) = prefixStep (x = y) xs ys"
  by (simp_all add: prefixStep_def)

lemma prefixStep_code [code]:
  "prefixStep False xs ys = False"
  "prefixStep True xs ys = prefix xs ys"
  by (simp_all add: prefixStep_def)

lemma take_step [code]:
  "take 0 xs = []"
  "take (Suc n) [] = []"
  "take (Suc n) (x # xs) = x # take n xs"
  by simp_all

lemma indexOf_step [code]:
  "indexOf [] t = (if t = [] then Some 0 else None)"
  "indexOf (c # cs) t = indexOfStep (prefix t (c # cs)) (indexOf cs t)"
  by simp_all

lemma matchesQueryHeader_step [code]:
  "matchesQueryHeader s = queryHeaderRest (prefix ''## Query '' s) s"
  by (cases "prefix ''## Query '' s") (simp_all add: matchesQueryHeader_def)

lemma countQueryHeaders_step [code]:
  "countQueryHeaders atLineStart [] = 0"
  "countQueryHeaders atLineStart (c # cs) =
     queryHeaderAt atLineStart (c # cs) + countQueryHeaders (isLineTerminator c) cs"
  by (cases atLineStart; simp)+

section \<open>Citation deduplication\<close>

lemma filterUnseen_firstOccurrenceWins:
  "filterUnseen seen cs = filter (\<lambda>u. u \<notin> seen) (firstOccurrenceWins cs)"
proof (induction cs arbitrary: seen)
  case Nil
  show ?case by simp
next
  case (Cons c cs)
  have "filter (\<lambda>u. u \<notin> insert c seen) (firstOccurrenceWins cs)
      = filter (\<lambda>u. u \<notin> seen) (filter (\<lambda>y. y \<noteq> c) (firstOccurrenceWins cs))"
    by (simp add: conj_commute)
  moreover have "c \<in> seen \<Longrightarrow>
      filter (\<lambda>u. u \<notin> seen) (firstOccurrenceWins cs)
      = filter (\<lambda>u. u \<notin> seen) (filter (\<lambda>y. y \<noteq> c) (firstOccurrenceWins cs))"
    by (auto intro: filter_cong)
  ultimately show ?case by (simp add: Cons.IH)
qed

lemma deduplicateCitations_firstOccurrenceWins:
  "deduplicateCitations cs = firstOccurrenceWins cs"
  by (simp add: deduplicateCitations_def filterUnseen_firstOccurrenceWins)

lemma set_firstOccurrenceWins: "set (firstOccurrenceWins cs) = set cs"
  by (induction cs) auto

lemma distinct_firstOccurrenceWins: "distinct (firstOccurrenceWins cs)"
  by (induction cs) auto

lemma allCitations_combineResults:
  "allCitations (combineResults query results pattern)
     = deduplicateCitations (concat (map mr_citations results))"
  by (simp add: combineResults_def Let_def)

text \<open>
  C7. The combined citation list of \<open>combineResults\<close> is the first-occurrence-wins
  deduplication of the steps' citation lists concatenated in step order: it holds each
  URL of the steps exactly once, in order of first appearance. Steps citing
  \<open>[a,b,a,c]\<close> and \<open>[b,d]\<close> combine to \<open>[a,b,c,d]\<close>.
\<close>

theorem combineResults_citations_first_occurrence:
  "allCitations (combineResults query results pattern)
     = firstOccurrenceWins (concat (map mr_citations results))
   \<and> distinct (allCitations (combineResults query results pattern))
   \<and> set (allCitations (combineResults query results pattern))
     = set (concat (map mr_citations results))
   \<and> allCitations (combineResults query
         [r1\<lparr>mr_citations := [''a'', ''b'', ''a'', ''c'']\<rparr>,
          r2\<lparr>mr_citations := [''b'', ''d'']\<rparr>] pattern) = [''a'', ''b'', ''c'', ''d'']"
  by (simp add: allCitations_combineResults deduplicateCitations_firstOccurrenceWins
      set_firstOccurrenceWins distinct_firstOccurrenceWins)

section \<open>Consistency analysis\<close>

lemma commonCitations_iff:
  "2 \<le> length results \<Longrightarrow>
   url \<in> set (commonCitations results)
     \<longleftrightarrow> (\<forall>r \<in> set results. url \<in> set (mr_citations r))"
  by (cases results) (auto simp: commonCitations_def list_all_iff)

text \<open>\<open>analyzeConsistency\<close> records at most one conflict note, so its third rung, which
  asks for two, never fires.\<close>

lemma analyzeConsistency_conflicts_le_1:
  "length (c_conflicts (analyzeConsistency results)) \<le> 1"
  by (simp add: analyzeConsistency_def Let_def)

lemma analyzeConsistency_never_low:
  "c_confidence (analyzeConsistency results) \<noteq> Low"
  by (simp add: analyzeConsistency_def Let_def)

text \<open>What the code computes: on fewer than 2 results the fixed answer; otherwise the
  ladder on the length of the filtered citation list of the first step, which counts a
  URL as often as the first step lists it.\<close>

lemma analyzeConsistency_fewer_than_2:
  "length results < 2 \<Longrightarrow>
   analyzeConsistency results
     = \<lparr>c_agreements = [], c_conflicts = [], c_confidence = Medium\<rparr>"
  by (simp add: analyzeConsistency_def)

lemma analyzeConsistency_ladder_on_list_length:
  "2 \<le> length results \<Longrightarrow>
   c_confidence (analyzeConsistency results)
     = confidenceLadder (length (commonCitations results))
         (length (c_conflicts (analyzeConsistency results)))"
  by (simp add: analyzeConsistency_def confidenceLadder_def Let_def)

lemma depthVaries_equal_lengths:
  "\<not> depthVaries [exampleStep ''abc'' cs1, exampleStep ''xyz'' cs2]"
  by (simp add: depthVaries_def exampleStep_def)

lemma showNat_4: "showNat (Suc (Suc (Suc (Suc 0)))) = ''4''"
  by (simp add: showNat.simps)

text \<open>
  C2. Two steps with contents of equal length, citing \<open>[a,a,b,b]\<close> and \<open>[a,b]\<close>. The
  citations in every step's citation set are \<open>a\<close> and \<open>b\<close>: 2 common citations, for
  which the claim's ladder gives medium-high. \<open>analyzeConsistency\<close> filters the first
  step's list without removing repeats, counts 4, records the agreement note
  \<open>4 sources cited by all models\<close> and, with no conflict note, answers high.
\<close>

theorem analyzeConsistency_counts_repeats:
  "length stepsRepeating = 2
   \<and> set (commonCitations stepsRepeating) = {''a'', ''b''}
   \<and> card (set (commonCitations stepsRepeating)) = 2
   \<and> confidenceLadder (card (set (commonCitations stepsRepeating))) 0 = MediumHigh
   \<and> commonCitations stepsRepeating = [''a'', ''a'', ''b'', ''b'']
   \<and> analyzeConsistency stepsRepeating
       = \<lparr>c_agreements = [''4 sources cited by all models''], c_conflicts = [],
          c_confidence = High\<rparr>"
proof -
  have c: "commonCitations stepsRepeating = [''a'', ''a'', ''b'', ''b'']"
    by (simp add: stepsRepeating_def commonCitations_def exampleStep_def)
  have d: "\<not> depthVaries stepsRepeating"
    unfolding stepsRepeating_def by (rule depthVaries_equal_lengths)
  have "analyzeConsistency stepsRepeating
       = \<lparr>c_agreements = [''4 sources cited by all models''], c_conflicts = [],
          c_confidence = High\<rparr>"
    by (simp add: analyzeConsistency_def Let_def c d showNat_4)
       (simp add: stepsRepeating_def)
  then show ?thesis
    by (simp add: c confidenceLadder_def) (simp add: stepsRepeating_def)
qed

section \<open>Request building\<close>

lemma snd_search: "snd (search fetch sent query model options) = sent @ [buildRequest query model options]"
  by (simp add: search_def Let_def split: FetchOutcome.splits option.splits)




section \<open>Model selection\<close>

lemma splitWhitespace_nonempty: "splitWhitespace s \<noteq> []"
  by (induction s rule: splitWhitespace.induct) (auto split: list.splits)

lemma isSpace_toLowerChar: "isSpace (toLowerChar c) = isSpace c"
  by (simp add: isSpace_def toLowerChar_def Let_def)

lemma length_splitWhitespace_toLowerCase:
  "length (splitWhitespace (toLowerCase s)) = length (splitWhitespace s)"
proof (induction s rule: splitWhitespace.induct)
  case 1 show ?case by (simp add: toLowerCase_def)
next
  case (2 c cs)
  have dw: "dropWhile isSpace (map toLowerChar cs) = map toLowerChar (dropWhile isSpace cs)"
    by (simp add: dropWhile_map comp_def isSpace_toLowerChar)
  show ?case
  proof (cases "isSpace c")
    case True
    with 2 show ?thesis by (simp add: toLowerCase_def isSpace_toLowerChar dw)
  next
    case False
    with 2 splitWhitespace_nonempty[of cs] splitWhitespace_nonempty[of "map toLowerChar cs"]
    show ?thesis by (auto simp: toLowerCase_def isSpace_toLowerChar split: list.splits)
  qed
qed


text \<open>
  C4. \<open>analyzeQueryForModel\<close> classifies in priority order: a deep-research phrase gives
  the deep-research model whatever else the query holds (so also when it holds a
  reasoning phrase); else a reasoning phrase gives the reasoning model; else a short
  factual lookup gives the lightweight model; else the reasoning model. Queries that
  differ only in letter case get the same answer.
\<close>

theorem analyzeQueryForModel_priority:
  "(matchesAny deepResearchKeywords q \<longrightarrow>
      recommended (analyzeQueryForModel q) = SonarDeepResearch)
   \<and> (\<not> matchesAny deepResearchKeywords q \<and> matchesAny reasoningKeywords q \<longrightarrow>
      recommended (analyzeQueryForModel q) = SonarReasoningPro)
   \<and> (\<not> matchesAny deepResearchKeywords q \<and> \<not> matchesAny reasoningKeywords q
        \<and> factualLookup q \<longrightarrow>
      recommended (analyzeQueryForModel q) = Sonar)
   \<and> (\<not> matchesAny deepResearchKeywords q \<and> \<not> matchesAny reasoningKeywords q
        \<and> \<not> factualLookup q \<longrightarrow>
      recommended (analyzeQueryForModel q) = SonarReasoningPro)
   \<and> (toLowerCase q = toLowerCase q' \<longrightarrow> analyzeQueryForModel q = analyzeQueryForModel q')"
proof -
  have ci: "toLowerCase q = toLowerCase q' \<Longrightarrow> analyzeQueryForModel q = analyzeQueryForModel q'"
  proof -
    assume eq: "toLowerCase q = toLowerCase q'"
    have "length (splitWhitespace q) = length (splitWhitespace q')"
      using length_splitWhitespace_toLowerCase[of q] length_splitWhitespace_toLowerCase[of q'] eq
      by simp
    with eq show ?thesis by (simp add: analyzeQueryForModel_def)
  qed
  have rest: "(matchesAny deepResearchKeywords q \<longrightarrow>
      recommended (analyzeQueryForModel q) = SonarDeepResearch)
   \<and> (\<not> matchesAny deepResearchKeywords q \<and> matchesAny reasoningKeywords q \<longrightarrow>
      recommended (analyzeQueryForModel q) = SonarReasoningPro)
   \<and> (\<not> matchesAny deepResearchKeywords q \<and> \<not> matchesAny reasoningKeywords q
        \<and> factualLookup q \<longrightarrow>
      recommended (analyzeQueryForModel q) = Sonar)
   \<and> (\<not> matchesAny deepResearchKeywords q \<and> \<not> matchesAny reasoningKeywords q
        \<and> \<not> factualLookup q \<longrightarrow>
      recommended (analyzeQueryForModel q) = SonarReasoningPro)"
    by (simp add: analyzeQueryForModel_def matchesAny_def deepResearchKeywords_def
        reasoningKeywords_def factualLookup_def includesStr_def startsWith_def Let_def)
  from rest ci show ?thesis by blast
qed

lemma exampleQuery_deep: "matchesAny deepResearchKeywords exampleQuery"
  by code_simp

lemma exampleQuery_reasoning: "matchesAny reasoningKeywords exampleQuery"
  by code_simp

theorem analyzeQueryForModel_priority_witness:
  "matchesAny deepResearchKeywords exampleQuery
   \<and> matchesAny reasoningKeywords exampleQuery
   \<and> recommended (analyzeQueryForModel exampleQuery) = SonarDeepResearch"
proof -
  have "matchesAny deepResearchKeywords exampleQuery \<longrightarrow>
      recommended (analyzeQueryForModel exampleQuery) = SonarDeepResearch"
    using analyzeQueryForModel_priority [of exampleQuery exampleQuery] by (rule conjunct1)
  with exampleQuery_deep exampleQuery_reasoning show ?thesis by blast
qed


section \<open>Sequential synthesis\<close>

lemma synthesizeLoop_first_failure:
  "k < length models \<Longrightarrow>
   (\<forall>j<k. \<not> isl (stepOutcome fetch sent query sp models j)) \<Longrightarrow>
   stepOutcome fetch sent query sp models k = Inl e \<Longrightarrow>
   synthesizeLoop fetch sent query sp models results
     = (Inl e, sent @ take (Suc k) (stepRequests query sp models))"
proof (induction models arbitrary: sent results k)
  case Nil then show ?case by simp
next
  case (Cons m ms)
  obtain r s' where sr: "search fetch sent query m (synthesisOptions sp) = (r, s')"
    by (cases "search fetch sent query m (synthesisOptions sp)")
  have s': "s' = sent @ [buildRequest query m (synthesisOptions sp)]"
    using snd_search[of fetch sent query m "synthesisOptions sp"] sr by simp
  show ?case
  proof (cases k)
    case 0
    with Cons.prems(3) sr have "r = Inl e" by (simp add: stepOutcome_def)
    with sr s' 0 show ?thesis by (simp add: stepRequests_def)
  next
    case (Suc k')
    from Cons.prems(2) Suc have "\<not> isl (stepOutcome fetch sent query sp (m # ms) 0)" by blast
    with sr obtain resp where r: "r = Inr resp" by (cases r) (auto simp: stepOutcome_def)
    have shift: "\<And>j. stepOutcome fetch s' query sp ms j = stepOutcome fetch sent query sp (m # ms) (Suc j)"
      by (simp add: stepOutcome_def s' stepRequests_def)
    have "synthesizeLoop fetch s' query sp ms
           (results @ [\<lparr>mr_model = m, mr_response = resp,
                          mr_content = stripThinkingBlocks (firstContent resp),
                          mr_citations = citationsOf resp\<rparr>])
          = (Inl e, s' @ take (Suc k') (stepRequests query sp ms))"
      using Cons.prems Suc by (intro Cons.IH) (auto simp: shift)
    with sr r s' Suc show ?thesis by (simp add: stepRequests_def)
  qed
qed

lemma synthesizeLoop_all_succeed:
  "(\<forall>j<length models. \<not> isl (stepOutcome fetch sent query sp models j)) \<Longrightarrow>
   \<exists>rs. synthesizeLoop fetch sent query sp models results
     = (Inr (results @ rs), sent @ stepRequests query sp models) \<and> map mr_model rs = models"
proof (induction models arbitrary: sent results)
  case Nil then show ?case by (simp add: stepRequests_def)
next
  case (Cons m ms)
  obtain r s' where sr: "search fetch sent query m (synthesisOptions sp) = (r, s')"
    by (cases "search fetch sent query m (synthesisOptions sp)")
  have s': "s' = sent @ [buildRequest query m (synthesisOptions sp)]"
    using snd_search[of fetch sent query m "synthesisOptions sp"] sr by simp
  from Cons.prems have "\<not> isl (stepOutcome fetch sent query sp (m # ms) 0)" by auto
  with sr obtain resp where r: "r = Inr resp" by (cases r) (auto simp: stepOutcome_def)
  have shift: "\<And>j. stepOutcome fetch s' query sp ms j = stepOutcome fetch sent query sp (m # ms) (Suc j)"
    by (simp add: stepOutcome_def s' stepRequests_def)
  let ?x = "\<lparr>mr_model = m, mr_response = resp,
                          mr_content = stripThinkingBlocks (firstContent resp),
                          mr_citations = citationsOf resp\<rparr>"
  have "\<exists>rs. synthesizeLoop fetch s' query sp ms (results @ [?x])
          = (Inr ((results @ [?x]) @ rs), s' @ stepRequests query sp ms) \<and> map mr_model rs = ms"
    using Cons.prems by (intro Cons.IH) (auto simp: shift)
  then obtain rs where "synthesizeLoop fetch s' query sp ms (results @ [?x])
          = (Inr ((results @ [?x]) @ rs), s' @ stepRequests query sp ms)" "map mr_model rs = ms" by blast
  with sr r s' show ?case by (intro exI[of _ "?x # rs"]) (simp add: stepRequests_def)
qed

lemma synthesizeLoop_sends_prefix:
  "\<exists>n\<le>length models. snd (synthesizeLoop fetch sent query sp models results)
      = sent @ take n (stepRequests query sp models)"
proof (induction models arbitrary: sent results)
  case Nil then show ?case by simp
next
  case (Cons m ms)
  obtain r s' where sr: "search fetch sent query m (synthesisOptions sp) = (r, s')"
    by (cases "search fetch sent query m (synthesisOptions sp)")
  have s': "s' = sent @ [buildRequest query m (synthesisOptions sp)]"
    using snd_search[of fetch sent query m "synthesisOptions sp"] sr by simp
  show ?case
  proof (cases r)
    case (Inl e)
    with sr s' show ?thesis by (intro exI[of _ 1]) (simp add: stepRequests_def)
  next
    case (Inr resp)
    let ?x = "\<lparr>mr_model = m, mr_response = resp,
                mr_content = stripThinkingBlocks (firstContent resp),
                mr_citations = citationsOf resp\<rparr>"
    from Cons.IH[of s' "results @ [?x]"] obtain n where
      n: "n \<le> length ms" "snd (synthesizeLoop fetch s' query sp ms (results @ [?x]))
           = s' @ take n (stepRequests query sp ms)" by blast
    with sr Inr s' show ?thesis by (intro exI[of _ "Suc n"]) (simp add: stepRequests_def)
  qed
qed

text \<open>
  C6. \<open>synthesize\<close> calls the steps of the pattern in order, one after the other: the
  requests it sends are an initial part of the pattern's step requests. If step \<open>k\<close> is
  the first whose API call raises, with error \<open>e\<close>, then \<open>synthesize\<close> raises \<open>e\<close>, has
  sent the requests of steps \<open>0..k\<close> only, and produces no \<open>SynthesisResult\<close>.
\<close>

theorem synthesize_first_failure:
  "(\<exists>n\<le>length (getModelsForPattern pattern).
       snd (synthesize fetch sent query pattern sp)
         = sent @ take n (stepRequests query sp (getModelsForPattern pattern)))
   \<and> (k < length (getModelsForPattern pattern)
        \<and> (\<forall>j<k. \<not> isl (stepOutcome fetch sent query sp (getModelsForPattern pattern) j))
        \<and> stepOutcome fetch sent query sp (getModelsForPattern pattern) k = Inl e
      \<longrightarrow> synthesize fetch sent query pattern sp
            = (Inl e, sent @ take (Suc k) (stepRequests query sp (getModelsForPattern pattern))))"
proof (intro conjI impI)
  obtain r s' where l: "synthesizeLoop fetch sent query sp (getModelsForPattern pattern) [] = (r, s')"
    by (cases "synthesizeLoop fetch sent query sp (getModelsForPattern pattern) []")
  then have "snd (synthesize fetch sent query pattern sp)
      = snd (synthesizeLoop fetch sent query sp (getModelsForPattern pattern) [])"
    by (cases r) (simp_all add: synthesize_def)
  then show "\<exists>n\<le>length (getModelsForPattern pattern).
       snd (synthesize fetch sent query pattern sp)
         = sent @ take n (stepRequests query sp (getModelsForPattern pattern))"
    using synthesizeLoop_sends_prefix[of "getModelsForPattern pattern" fetch sent query sp "[]"] by simp
next
  assume a: "k < length (getModelsForPattern pattern)
        \<and> (\<forall>j<k. \<not> isl (stepOutcome fetch sent query sp (getModelsForPattern pattern) j))
        \<and> stepOutcome fetch sent query sp (getModelsForPattern pattern) k = Inl e"
  then have "synthesizeLoop fetch sent query sp (getModelsForPattern pattern) []
     = (Inl e, sent @ take (Suc k) (stepRequests query sp (getModelsForPattern pattern)))"
    by (intro synthesizeLoop_first_failure) auto
  then show "synthesize fetch sent query pattern sp
            = (Inl e, sent @ take (Suc k) (stepRequests query sp (getModelsForPattern pattern)))"
    by (simp add: synthesize_def)
qed

lemma failingFetch_steps:
  "\<not> isl (stepOutcome failingFetch [] ''q'' None (getModelsForPattern Truthtracer) 0)"
  "stepOutcome failingFetch [] ''q'' None (getModelsForPattern Truthtracer) 1
     = Inl (NetworkError ''Network error calling Perplexity API: ECONNRESET'')"
  by (simp_all add: stepOutcome_def search_def failingFetch_def buildRequest_def
        synthesisOptions_def noOptions_def spreadOver_def)

theorem synthesize_first_failure_witness:
  "synthesize failingFetch [] ''q'' Truthtracer None
     = (Inl (NetworkError ''Network error calling Perplexity API: ECONNRESET''),
        [buildRequest ''q'' SonarPro (synthesisOptions None),
         buildRequest ''q'' SonarReasoningPro (synthesisOptions None)])"
  using synthesize_first_failure [of Truthtracer failingFetch "[]" "''q''" None 1
      "NetworkError ''Network error calling Perplexity API: ECONNRESET''"]
    failingFetch_steps
  by (simp add: stepRequests_def)


section \<open>Thread file names\<close>


text \<open>
  C3. The slug of \<open>generateFilename\<close> is cut to 50 characters after the hyphens at its
  ends are removed, so the cut can leave a hyphen at the end: for the query
  \<open>How does the Perplexity API handle rate limits in production?\<close> the slug ends with
  a hyphen and the file name has two hyphens before the date.
\<close>

theorem generateFilename_slug_ends_with_hyphen:
  "sanitizedTopic 50 slugQuery = ''how-does-the-perplexity-api-handle-rate-limits-in-''
   \<and> generateFilename ''2026-11-02T09:05:07.000Z'' slugQuery
       = ''how-does-the-perplexity-api-handle-rate-limits-in--2026-11-02.md''"
  by code_simp

section \<open>Raw backup before markdown\<close>



















section \<open>Appending to a thread\<close>

lemma generateSummary_starts_with_marker:
  "prefix ''## Synthesis'' (summary (combineResults query results pattern))"
  by (simp add: combineResults_def generateSummary_def Let_def)

text \<open>A save whose file operations succeed: the raw backup and then the thread file are
  written; a new thread is header, entry 1 and synthesis section, an existing one is
  its text before the first \<open>## Synthesis\<close>, then the entry numbered one more than the
  query headers found, then the synthesis section.\<close>

lemma saveResearch_success:
  assumes wr: "e_writable env (RawFile rawName)"
    and wm: "e_writable env (ThreadFile (generateFilename (e_fileIso env) query))"
    and rm: "e_readable env (ThreadFile (generateFilename (e_fileIso env) query))"
    and rawName: "rawName = generateTimestamp (e_localTime env) @ ''_'' @ sanitizedTopic 30 query @ ''.json''"
  shows "saveResearch env fs query response model systemPrompt modelRationale approvedPlan
     = (Inr (ThreadFile (generateFilename (e_fileIso env) query)),
        fs\<lparr>files := (files fs)
               (RawFile rawName \<mapsto> e_stringify env \<lparr>saved_at = e_savedAt env, rd_model = model,
                                           rd_topic = query, rd_response = response\<rparr>,
                ThreadFile (generateFilename (e_fileIso env) query) \<mapsto>
                  (case files fs (ThreadFile (generateFilename (e_fileIso env) query)) of
                     None \<Rightarrow> threadHeader query systemPrompt
                       @ formatEntry env 1 rawName query response model modelRationale approvedPlan
                       @ generateSynthesisSection env 1
                   | Some old \<Rightarrow> withoutSynthesis old
                       @ formatEntry env (countQueryHeaders True old + 1) rawName query response
                           model modelRationale approvedPlan
                       @ generateSynthesisSection env (countQueryHeaders True old + 1))),
             writes := writes fs @ [RawFile rawName,
                                    ThreadFile (generateFilename (e_fileIso env) query)]\<rparr>)"
proof -
  let ?md = "ThreadFile (generateFilename (e_fileIso env) query)"
  let ?json = "e_stringify env \<lparr>saved_at = e_savedAt env, rd_model = model,
                                           rd_topic = query, rd_response = response\<rparr>"
  let ?fs1 = "fs\<lparr>files := (files fs)(RawFile rawName \<mapsto> ?json),
                 writes := writes fs @ [RawFile rawName]\<rparr>"
  have raw: "saveRawResponse env fs query response model = Inr (rawName, ?fs1)"
    using wr by (simp add: saveRawResponse_def writeFileSync_def Let_def rawName)
  have f1: "files ?fs1 ?md = files fs ?md" by simp
  show ?thesis
  proof (cases "files fs ?md")
    case None
    then have ex: "\<not> existsSync ?fs1 ?md" by (simp add: existsSync_def)
    then have cnt: "countQueriesInThread env ?fs1 ?md = Inr 0"
      by (simp add: countQueriesInThread_def)
    show ?thesis
      using raw ex cnt wm None
      by (simp add: saveResearch_def Let_def writeFileSync_def threadHeader_def)
  next
    case (Some old)
    then have ex: "existsSync ?fs1 ?md" by (simp add: existsSync_def)
    have rd: "readFileSync env ?fs1 ?md = Inr old"
      using Some rm by (simp add: readFileSync_def)
    have cnt: "countQueriesInThread env ?fs1 ?md = Inr (countQueryHeaders True old)"
      using ex rd by (simp add: countQueriesInThread_def)
    show ?thesis
      using raw ex cnt rd wm Some
      by (simp add: saveResearch_def Let_def writeFileSync_def)
  qed
qed


lemma example_filename:
  "generateFilename (e_fileIso exampleEnv) ''[Deep Research] x'' = ''deep-research-x-2026-11-02.md''"
  by code_simp

lemma example_rawname:
  "generateTimestamp (e_localTime exampleEnv) @ ''_'' @ sanitizedTopic 30 ''[Deep Research] x'' @ ''.json''
     = ''20261102_090507_deep-research-x.json''"
  by code_simp

lemma exampleEnv_access:
  "e_writable exampleEnv p" "e_readable exampleEnv p"
  by (simp_all add: exampleEnv_def)

lemma deepResearchSave_result:
  "deepResearchSave fs =
     (Inr examplePath,
      fs\<lparr>files := (files fs)
            (RawFile ''20261102_090507_deep-research-x.json'' \<mapsto>
               e_stringify exampleEnv
                 \<lparr>saved_at = e_savedAt exampleEnv, rd_model = SonarDeepResearch,
                    rd_topic = ''[Deep Research] x'', rd_response = synthesisResponse\<rparr>,
             examplePath \<mapsto>
               (case files fs examplePath of
                  None \<Rightarrow> firstThread
                | Some old \<Rightarrow> withoutSynthesis old
                    @ formatEntry exampleEnv (countQueryHeaders True old + 1)
                        ''20261102_090507_deep-research-x.json'' ''[Deep Research] x''
                        synthesisResponse SonarDeepResearch
                        (Some ''user-specified quick-deep pattern'') None
                    @ generateSynthesisSection exampleEnv (countQueryHeaders True old + 1))),
          writes := writes fs @ [RawFile ''20261102_090507_deep-research-x.json'',
                                 examplePath]\<rparr>)"
proof -
  note r = saveResearch_success [of exampleEnv "''20261102_090507_deep-research-x.json''"
      "''[Deep Research] x''" fs synthesisResponse SonarDeepResearch
      "Some ''Multi-model synthesis (quick-deep)''"
      "Some ''user-specified quick-deep pattern''" None,
      OF exampleEnv_access(1) exampleEnv_access(1) exampleEnv_access(2)
         example_rawname [symmetric]]
  show ?thesis
    unfolding deepResearchSave_def examplePath_def firstThread_def firstEntry_def
    by (rule r [unfolded example_filename])
qed

lemma threadAfterFirst_eq: "threadAfterFirst = firstThread"
  by (simp add: threadAfterFirst_def contentOf_def deepResearchSave_result emptyFs_def)

lemma firstThread_count: "countQueryHeaders True firstThread = 1"
  by code_simp

lemma firstThread_cut: "withoutSynthesis firstThread = cutThread"
  by code_simp

lemma threadAfterSecond_eq:
  "threadAfterSecond = cutThread @ secondEntry @ generateSynthesisSection exampleEnv 2"
proof -
  have two: "countQueryHeaders True firstThread + 1 = 2"
    by (simp only: firstThread_count one_add_one)
  have "files (snd (deepResearchSave emptyFs)) examplePath = Some firstThread"
    by (simp add: deepResearchSave_result emptyFs_def)
  then have "contentOf (snd (deepResearchSave (snd (deepResearchSave emptyFs)))) examplePath
      = withoutSynthesis firstThread
        @ formatEntry exampleEnv (countQueryHeaders True firstThread + 1)
            ''20261102_090507_deep-research-x.json'' ''[Deep Research] x''
            synthesisResponse SonarDeepResearch
            (Some ''user-specified quick-deep pattern'') None
        @ generateSynthesisSection exampleEnv (countQueryHeaders True firstThread + 1)"
    by (simp add: contentOf_def deepResearchSave_result [of "snd (deepResearchSave emptyFs)"])
  then show ?thesis
    by (simp only: threadAfterSecond_def two firstThread_cut secondEntry_def)
qed

lemma firstEntry_not_kept:
  "\<not> prefix (threadHeader ''[Deep Research] x'' (Some ''Multi-model synthesis (quick-deep)'')
               @ firstEntry)
            (cutThread @ secondEntry @ generateSynthesisSection exampleEnv 2)"
  by code_simp

text \<open>
  C1. Two saves of the \<open>deep_research\<close> tool for the same query on the same day, all
  file operations succeeding. The first creates the thread: header, entry 1, synthesis
  section. The stored findings are the synthesis summary, which starts with
  \<open>## Synthesis Summary\<close>, so the second save finds its marker \<open>## Synthesis\<close> inside
  entry 1, keeps the file only up to the \<open>### Findings\<close> heading of entry 1
  (\<open>cutThread\<close>) and appends entry 2 there: after the second save the file no longer
  starts with the header and entry 1 as the first save wrote them.
\<close>

theorem saveResearch_second_save_cuts_first_entry:
  "fst (deepResearchSave emptyFs) = Inr examplePath
   \<and> threadAfterFirst
       = threadHeader ''[Deep Research] x'' (Some ''Multi-model synthesis (quick-deep)'')
         @ firstEntry @ generateSynthesisSection exampleEnv 1
   \<and> fst (deepResearchSave (snd (deepResearchSave emptyFs))) = Inr examplePath
   \<and> threadAfterSecond = cutThread @ secondEntry @ generateSynthesisSection exampleEnv 2
   \<and> \<not> prefix (threadHeader ''[Deep Research] x''
                   (Some ''Multi-model synthesis (quick-deep)'') @ firstEntry)
                threadAfterSecond"
proof (intro conjI)
  show "fst (deepResearchSave emptyFs) = Inr examplePath"
    by (simp only: deepResearchSave_result fst_conv)
  show "threadAfterFirst
       = threadHeader ''[Deep Research] x'' (Some ''Multi-model synthesis (quick-deep)'')
         @ firstEntry @ generateSynthesisSection exampleEnv 1"
    by (simp only: threadAfterFirst_eq firstThread_def)
  show "fst (deepResearchSave (snd (deepResearchSave emptyFs))) = Inr examplePath"
    by (simp only: deepResearchSave_result fst_conv)
  show "threadAfterSecond = cutThread @ secondEntry @ generateSynthesisSection exampleEnv 2"
    by (rule threadAfterSecond_eq)
  show "\<not> prefix (threadHeader ''[Deep Research] x''
                   (Some ''Multi-model synthesis (quick-deep)'') @ firstEntry)
                threadAfterSecond"
    by (simp only: threadAfterSecond_eq firstEntry_not_kept not_False_eq_True)
qed

section \<open>Searching the threads\<close>

lemma hasNonSpace_iff: "hasNonSpace s \<longleftrightarrow> (\<exists>c\<in>set s. \<not> isSpace c)"
  by (simp add: hasNonSpace_def list_ex_iff)

lemma trimStart_Nil_iff: "trimStart s = [] \<longleftrightarrow> (\<forall>c\<in>set s. isSpace c)"
  by (simp add: trimStart_def dropWhile_eq_Nil_conv)

lemma trimEnd_Nil_iff: "trimEnd s = [] \<longleftrightarrow> (\<forall>c\<in>set s. isSpace c)"
  by (simp add: trimEnd_def dropWhile_eq_Nil_conv)

lemma trim_Nil_iff: "trim s = [] \<longleftrightarrow> \<not> hasNonSpace s"
proof
  assume "trim s = []"
  then have all: "\<forall>c\<in>set (dropWhile isSpace s). isSpace c"
    by (simp add: trim_def trimEnd_Nil_iff trimStart_def)
  have "dropWhile isSpace s = []"
  proof (rule ccontr)
    assume ne: "dropWhile isSpace s \<noteq> []"
    then have "\<not> isSpace (hd (dropWhile isSpace s))" by (rule hd_dropWhile)
    moreover from ne have "hd (dropWhile isSpace s) \<in> set (dropWhile isSpace s)" by simp
    ultimately show False using all by blast
  qed
  then show "\<not> hasNonSpace s" by (simp add: hasNonSpace_iff dropWhile_eq_Nil_conv)
next
  assume "\<not> hasNonSpace s"
  then have "\<forall>c\<in>set s. isSpace c" by (simp add: hasNonSpace_iff)
  then have d: "dropWhile isSpace s = []" by (simp add: dropWhile_eq_Nil_conv)
  show "trim s = []" unfolding trim_def trimStart_def trimEnd_def d by simp
qed

lemma set_join_subset: "set (join sep xs) \<subseteq> set sep \<union> (\<Union>x\<in>set xs. set x)"
  by (induction sep xs rule: join.induct) auto

lemma set_subset_join: "x \<in> set xs \<Longrightarrow> set x \<subseteq> set (join sep xs)"
  by (induction sep xs rule: join.induct) auto

lemma splitLines_nonempty: "splitLines s \<noteq> []"
  by (induction s) (auto split: list.splits)

lemma set_splitLines_subset: "l \<in> set (splitLines s) \<Longrightarrow> set l \<subseteq> set s"
proof (induction s arbitrary: l)
  case Nil then show ?case by simp
next
  case (Cons c cs)
  show ?case
  proof (cases "c = CHR 10")
    case True
    with Cons show ?thesis by auto
  next
    case False
    obtain x xs where sp: "splitLines cs = x # xs"
      using splitLines_nonempty[of cs] by (cases "splitLines cs") auto
    with False Cons.prems have "l = c # x \<or> l \<in> set xs" by simp
    then show ?thesis
    proof
      assume "l = c # x"
      moreover have "set x \<subseteq> set cs" using Cons.IH[of x] sp by simp
      ultimately show ?thesis by auto
    next
      assume "l \<in> set xs"
      then have "set l \<subseteq> set cs" using Cons.IH[of l] sp by simp
      then show ?thesis by auto
    qed
  qed
qed

lemma char_in_splitLines:
  "c \<in> set s \<Longrightarrow> c \<noteq> CHR 10 \<Longrightarrow> \<exists>l\<in>set (splitLines s). c \<in> set l"
proof (induction s)
  case Nil then show ?case by simp
next
  case (Cons d ds)
  obtain x xs where sp: "splitLines ds = x # xs"
    using splitLines_nonempty[of ds] by (cases "splitLines ds") auto
  show ?case
  proof (cases "d = CHR 10")
    case True
    with Cons show ?thesis by auto
  next
    case False
    show ?thesis
    proof (cases "c = d")
      case True
      with False sp show ?thesis by simp
    next
      case ne: False
      with Cons have "\<exists>l\<in>set (splitLines ds). c \<in> set l" by simp
      with False sp show ?thesis by auto
    qed
  qed
qed

lemma prefix_first_line:
  "CHR 10 \<notin> set t \<Longrightarrow> prefix t s \<Longrightarrow> prefix t (hd (splitLines s))"
proof (induction s arbitrary: t)
  case Nil then show ?case by simp
next
  case (Cons c cs)
  show ?case
  proof (cases t)
    case Nil then show ?thesis by simp
  next
    case (Cons a t')
    with Cons.prems have a: "a = c" "prefix t' cs" "CHR 10 \<notin> set t'" "c \<noteq> CHR 10" by auto
    obtain x xs where sp: "splitLines cs = x # xs"
      using splitLines_nonempty[of cs] by (cases "splitLines cs") auto
    from Cons.IH[of t'] a sp have "prefix t' x" by simp
    with a sp Cons show ?thesis by simp
  qed
qed

lemma sublist_in_line:
  "CHR 10 \<notin> set t \<Longrightarrow> sublist t s \<Longrightarrow> \<exists>l\<in>set (splitLines s). sublist t l"
proof (induction s)
  case Nil
  then show ?case by simp
next
  case (Cons c cs)
  obtain x xs where sp: "splitLines cs = x # xs"
    using splitLines_nonempty[of cs] by (cases "splitLines cs") auto
  from Cons.prems(2) have "prefix t (c # cs) \<or> sublist t cs"
    by (simp add: sublist_Cons_right)
  then show ?case
  proof
    assume "prefix t (c # cs)"
    then have "prefix t (hd (splitLines (c # cs)))"
      using Cons.prems(1) by (rule prefix_first_line[rotated])
    moreover have "hd (splitLines (c # cs)) \<in> set (splitLines (c # cs))"
      using splitLines_nonempty[of "c # cs"] by (rule hd_in_set)
    ultimately show ?thesis by (meson prefix_imp_sublist)
  next
    assume "sublist t cs"
    then obtain l where l: "l \<in> set (splitLines cs)" "sublist t l"
      using Cons.IH Cons.prems(1) by blast
    show ?thesis
    proof (cases "c = CHR 10")
      case True
      with l show ?thesis by auto
    next
      case False
      from l sp have "l = x \<or> l \<in> set xs" by simp
      then show ?thesis
      proof
        assume "l = x"
        with l have "sublist t (c # x)" by (simp add: sublist_Cons_right)
        with False sp show ?thesis by auto
      next
        assume "l \<in> set xs"
        with False sp l show ?thesis by auto
      qed
    qed
  qed
qed

lemma newline_iff: "c = CHR 10 \<longleftrightarrow> (of_char c :: nat) = 10"
proof -
  have "(of_char c :: nat) = of_char (CHR 10) \<longleftrightarrow> c = CHR 10"
    by (rule of_char_eq_iff)
  then show ?thesis by simp
qed

lemma toLowerChar_newline: "toLowerChar c = CHR 10 \<longleftrightarrow> c = CHR 10"
  by (simp add: newline_iff [of "toLowerChar c"] newline_iff [of c])
     (simp add: toLowerChar_def Let_def)

lemma splitLines_toLowerCase:
  "splitLines (toLowerCase s) = map toLowerCase (splitLines s)"
proof (induction s)
  case Nil
  show ?case by (simp add: toLowerCase_def)
next
  case (Cons c cs)
  obtain x xs where sp: "splitLines cs = x # xs"
    using splitLines_nonempty[of cs] by (cases "splitLines cs") auto
  with Cons show ?case
    by (simp add: toLowerCase_def toLowerChar_newline)
qed

lemma isSpace_newline: "isSpace (CHR 10)"
  by (simp add: isSpace_def)

lemma splitWhitespace_no_space:
  "t \<in> set (splitWhitespace s) \<Longrightarrow> c \<in> set t \<Longrightarrow> \<not> isSpace c"
proof (induction s arbitrary: t rule: splitWhitespace.induct)
  case 1
  then show ?case by simp
next
  case (2 d ds)
  show ?case
  proof (cases "isSpace d")
    case True
    with 2 show ?thesis by auto
  next
    case False
    obtain x xs where sp: "splitWhitespace ds = x # xs"
      using splitWhitespace_nonempty[of ds] by (cases "splitWhitespace ds") auto
    with False "2.prems" have "t = d # x \<or> t \<in> set xs" by simp
    then show ?thesis
    proof
      assume "t = d # x"
      with "2.prems" have "c = d \<or> c \<in> set x" by simp
      then show ?thesis
        using False "2.IH"(2)[OF False, of x] sp by auto
    next
      assume "t \<in> set xs"
      then show ?thesis using "2.IH"(2)[OF False, of t] sp "2.prems" by simp
    qed
  qed
qed

lemma nonspace_in_term:
  "c \<in> set s \<Longrightarrow> \<not> isSpace c \<Longrightarrow> \<exists>t\<in>set (splitWhitespace s). c \<in> set t"
proof (induction s rule: splitWhitespace.induct)
  case 1
  then show ?case by simp
next
  case (2 d ds)
  obtain x xs where sp: "splitWhitespace ds = x # xs"
    using splitWhitespace_nonempty[of ds] by (cases "splitWhitespace ds") auto
  show ?case
  proof (cases "isSpace d")
    case True
    with "2.prems" have "c \<in> set ds" by auto
    then have "c \<in> set (dropWhile isSpace ds)"
      using "2.prems"(2)
      by (metis (no_types, lifting) UnE set_append set_takeWhileD takeWhile_dropWhile_id)
    with "2.IH"(1)[OF True] "2.prems"(2) True show ?thesis by auto
  next
    case False
    show ?thesis
    proof (cases "c = d")
      case True
      with False sp show ?thesis by simp
    next
      case ne: False
      with "2.prems" have "c \<in> set ds" by simp
      with "2.IH"(2)[OF False] "2.prems"(2) obtain t where "t \<in> set (splitWhitespace ds)" "c \<in> set t"
        by blast
      with False sp show ?thesis by auto
    qed
  qed
qed

lemma splitWhitespace_all_space:
  "list_all isSpace s \<Longrightarrow> t \<in> set (splitWhitespace s) \<Longrightarrow> t = []"
proof (cases s)
  case Nil
  assume "t \<in> set (splitWhitespace s)"
  with Nil show ?thesis by simp
next
  case (Cons c cs)
  assume a: "list_all isSpace s" "t \<in> set (splitWhitespace s)"
  with Cons have "isSpace c" "dropWhile isSpace cs = []"
    by (simp_all add: list_all_iff dropWhile_eq_Nil_conv)
  with a Cons show ?thesis by simp
qed


lemma firstOccurrenceWins_Nil_iff: "firstOccurrenceWins xs = [] \<longleftrightarrow> xs = []"
  by (cases xs) simp_all

lemma collectMatches_eq:
  "collectMatches searchTerms lines idxs acc
     = acc @ filter (\<lambda>c. c \<notin> set acc)
               (firstOccurrenceWins (candidateSnippets searchTerms lines idxs))"
proof (induction idxs arbitrary: acc)
  case Nil
  show ?case by (simp add: candidateSnippets_def)
next
  case (Cons i rest)
  let ?R = "firstOccurrenceWins (candidateSnippets searchTerms lines rest)"
  let ?ctx = "contextAt lines i"
  show ?case
  proof (cases "lineMatches searchTerms (lines ! i) \<and> ?ctx \<noteq> []")
    case False
    then have "candidateSnippets searchTerms lines (i # rest)
        = candidateSnippets searchTerms lines rest"
      by (auto simp: candidateSnippets_def)
    moreover from False have "collectMatches searchTerms lines (i # rest) acc
        = collectMatches searchTerms lines rest acc"
      by (auto simp: Let_def)
    ultimately show ?thesis using Cons.IH[of acc] by simp
  next
    case True
    then have cand: "candidateSnippets searchTerms lines (i # rest)
        = ?ctx # candidateSnippets searchTerms lines rest"
      by (simp add: candidateSnippets_def)
    show ?thesis
    proof (cases "?ctx \<in> set acc")
      case seen: True
      with True have "collectMatches searchTerms lines (i # rest) acc
          = collectMatches searchTerms lines rest acc"
        by (simp add: Let_def)
      moreover have "filter (\<lambda>c. c \<notin> set acc) (filter (\<lambda>y. y \<noteq> ?ctx) ?R)
          = filter (\<lambda>c. c \<notin> set acc) ?R"
        using seen by (auto simp: filter_filter intro: filter_cong)
      ultimately show ?thesis using Cons.IH[of acc] seen by (simp add: cand)
    next
      case unseen: False
      with True have "collectMatches searchTerms lines (i # rest) acc
          = collectMatches searchTerms lines rest (acc @ [?ctx])"
        by (simp add: Let_def)
      moreover have "filter (\<lambda>c. c \<notin> set (acc @ [?ctx])) ?R
          = filter (\<lambda>c. c \<notin> set acc) (filter (\<lambda>y. y \<noteq> ?ctx) ?R)"
        by (auto simp: filter_filter intro: filter_cong)
      ultimately show ?thesis using Cons.IH[of "acc @ [?ctx]"] unseen by (simp add: cand)
    qed
  qed
qed

lemma line_in_window:
  assumes "i < length lines"
  shows "lines ! i \<in> set (take (min (length lines) (i + 2) - (i - 1)) (drop (i - 1) lines))"
proof -
  let ?s = "i - 1"
  let ?k = "min (length lines) (i + 2) - ?s"
  have le: "?s \<le> i" by simp
  have lt: "i - ?s < ?k" using assms by (cases i) auto
  have len: "i - ?s < length (drop ?s lines)" using assms by (cases i) auto
  have "take ?k (drop ?s lines) ! (i - ?s) = drop ?s lines ! (i - ?s)"
    using lt by simp
  also have "\<dots> = lines ! i" using assms le by simp
  finally have "lines ! i = take ?k (drop ?s lines) ! (i - ?s)" by simp
  moreover have "i - ?s < length (take ?k (drop ?s lines))" using lt len by simp
  ultimately show ?thesis by (metis nth_mem)
qed

lemma contextAt_nonempty:
  assumes "i < length lines" "hasNonSpace (lines ! i)"
  shows "contextAt lines i \<noteq> []"
proof -
  let ?w = "take (min (length lines) (i + 2) - (i - 1)) (drop (i - 1) lines)"
  from assms(2) obtain c where c: "c \<in> set (lines ! i)" "\<not> isSpace c"
    by (auto simp: hasNonSpace_iff)
  have "set (lines ! i) \<subseteq> set (join [CHR 10] ?w)"
    using line_in_window[OF assms(1)] by (rule set_subset_join)
  with c have "hasNonSpace (join [CHR 10] ?w)" by (auto simp: hasNonSpace_iff)
  then show ?thesis by (simp add: contextAt_def Let_def trim_Nil_iff)
qed

lemma contextAt_nonempty_content:
  assumes "contextAt (splitLines s) i \<noteq> []"
  shows "hasNonSpace s"
proof -
  let ?lines = "splitLines s"
  let ?w = "take (min (length ?lines) (i + 2) - (i - 1)) (drop (i - 1) ?lines)"
  from assms have "hasNonSpace (join [CHR 10] ?w)"
    by (simp add: contextAt_def Let_def trim_Nil_iff)
  then obtain c where c: "c \<in> set (join [CHR 10] ?w)" "\<not> isSpace c"
    by (auto simp: hasNonSpace_iff)
  with set_join_subset[of "[CHR 10]" ?w] isSpace_newline
  obtain l where l: "l \<in> set ?w" "c \<in> set l" by auto
  from l(1) have "l \<in> set ?lines" by (meson in_set_dropD in_set_takeD)
  with l(2) set_splitLines_subset[of l s] c(2) show ?thesis
    by (auto simp: hasNonSpace_iff)
qed

lemma matching_line_exists:
  assumes terms: "searchTerms = searchTermsOf keywords"
    and all: "list_all (\<lambda>t. sublist t (toLowerCase s)) searchTerms"
    and ns: "hasNonSpace s"
  shows "\<exists>i<length (splitLines s).
           lineMatches searchTerms (splitLines s ! i) \<and> hasNonSpace (splitLines s ! i)"
proof (cases "\<exists>t\<in>set searchTerms. t \<noteq> []")
  case True
  then obtain t where t: "t \<in> set searchTerms" "t \<noteq> []" by blast
  have nosp: "\<And>c. c \<in> set t \<Longrightarrow> \<not> isSpace c"
    using t(1) terms splitWhitespace_no_space by (auto simp: searchTermsOf_def)
  then have "CHR 10 \<notin> set t" using isSpace_newline by blast
  moreover from all t(1) have "sublist t (toLowerCase s)" by (simp add: list_all_iff)
  ultimately obtain l where "l \<in> set (splitLines (toLowerCase s))" "sublist t l"
    using sublist_in_line by blast
  then obtain i where i: "i < length (splitLines s)" "sublist t (toLowerCase (splitLines s ! i))"
    by (auto simp: splitLines_toLowerCase in_set_conv_nth)
  then have "lineMatches searchTerms (splitLines s ! i)"
    using t(1) by (auto simp: lineMatches_def includesStr_def list_ex_iff)
  moreover have "hasNonSpace (splitLines s ! i)"
  proof -
    from t(2) obtain c where c: "c \<in> set t" by (cases t) auto
    with i(2) have "c \<in> set (toLowerCase (splitLines s ! i))"
      by (meson set_mono_sublist subsetD)
    then obtain d where d: "d \<in> set (splitLines s ! i)" "c = toLowerChar d"
      by (auto simp: toLowerCase_def)
    with nosp[OF c] have "\<not> isSpace d" by (simp add: isSpace_toLowerChar)
    with d show ?thesis by (auto simp: hasNonSpace_iff)
  qed
  ultimately show ?thesis using i(1) by blast
next
  case False
  have "searchTerms \<noteq> []" using terms splitWhitespace_nonempty by (simp add: searchTermsOf_def)
  with False have e: "[] \<in> set searchTerms" by (cases searchTerms) auto
  from ns obtain c where c: "c \<in> set s" "\<not> isSpace c" by (auto simp: hasNonSpace_iff)
  then have "c \<noteq> CHR 10" using isSpace_newline by auto
  with c obtain l where "l \<in> set (splitLines s)" "c \<in> set l"
    using char_in_splitLines by blast
  then obtain i where i: "i < length (splitLines s)" "c \<in> set (splitLines s ! i)"
    by (auto simp: in_set_conv_nth)
  have "lineMatches searchTerms (splitLines s ! i)"
    using e by (auto simp: lineMatches_def includesStr_def list_ex_iff)
  moreover have "hasNonSpace (splitLines s ! i)" using i(2) c(2) by (auto simp: hasNonSpace_iff)
  ultimately show ?thesis using i(1) by blast
qed

lemma candidateSnippets_nonempty_iff:
  assumes terms: "searchTerms = searchTermsOf keywords"
    and all: "list_all (\<lambda>t. sublist t (toLowerCase s)) searchTerms"
  shows "candidateSnippets searchTerms (splitLines s) [0..<length (splitLines s)] \<noteq> []
         \<longleftrightarrow> hasNonSpace s"
proof
  assume "candidateSnippets searchTerms (splitLines s) [0..<length (splitLines s)] \<noteq> []"
  then obtain x where "x \<in> set (candidateSnippets searchTerms (splitLines s) [0..<length (splitLines s)])"
    by (meson last_in_set)
  then obtain i where "contextAt (splitLines s) i \<noteq> []"
    by (auto simp: candidateSnippets_def)
  then show "hasNonSpace s" by (rule contextAt_nonempty_content)
next
  assume "hasNonSpace s"
  with matching_line_exists[OF terms all] obtain i where
    i: "i < length (splitLines s)" "lineMatches searchTerms (splitLines s ! i)"
       "hasNonSpace (splitLines s ! i)" by blast
  then have "contextAt (splitLines s) i \<noteq> []" using contextAt_nonempty by blast
  with i have "contextAt (splitLines s) i
      \<in> set (candidateSnippets searchTerms (splitLines s) [0..<length (splitLines s)])"
    by (auto simp: candidateSnippets_def)
  then show "candidateSnippets searchTerms (splitLines s) [0..<length (splitLines s)] \<noteq> []"
    by auto
qed

lemma window_eq:
  assumes "i < length lines"
  shows "take (min (length lines) (i + 2) - (i - 1)) (drop (i - 1) lines) = lineWindow lines i"
proof (cases i)
  case 0
  with assms obtain x xs where l: "lines = x # xs" by (cases lines) auto
  show ?thesis
  proof (cases xs)
    case Nil
    with 0 l show ?thesis by (simp add: lineWindow_def)
  next
    case (Cons y ys)
    with 0 l show ?thesis by (simp add: lineWindow_def)
  qed
next
  case (Suc j)
  with assms have j: "j < length lines" "Suc j < length lines" by auto
  have d1: "drop j lines = lines ! j # drop (Suc j) lines"
    using j(1) by (simp add: Cons_nth_drop_Suc)
  have d2: "drop (Suc j) lines = lines ! Suc j # drop (Suc (Suc j)) lines"
    using j(2) by (simp add: Cons_nth_drop_Suc)
  show ?thesis
  proof (cases "Suc (Suc j) < length lines")
    case True
    then have d3: "drop (Suc (Suc j)) lines = lines ! Suc (Suc j) # drop (Suc (Suc (Suc j))) lines"
      by (simp add: Cons_nth_drop_Suc)
    from True have "min (length lines) (Suc j + 2) - j = 3" by simp
    with Suc True show ?thesis by (simp add: lineWindow_def d1 d2 d3 numeral_3_eq_3)
  next
    case False
    with j(2) have len: "length lines = Suc (Suc j)" by simp
    then have "min (length lines) (Suc j + 2) - j = 2" by simp
    moreover from len have "drop (Suc (Suc j)) lines = []" by simp
    ultimately show ?thesis using Suc False by (simp add: lineWindow_def d1 d2 numeral_2_eq_2)
  qed
qed

lemma contextAt_window:
  assumes "i < length lines"
  shows "contextAt lines i = trim (join [CHR 10] (lineWindow lines i))"
  unfolding contextAt_def Let_def window_eq [OF assms] by (rule refl)

lemma snippetsOf_candidates:
  "snippetsOf keywords text
     = take 5 (firstOccurrenceWins
         (candidateSnippets (searchTermsOf keywords) (splitLines text)
            [0..<length (splitLines text)]))"
proof -
  let ?lines = "splitLines text"
  let ?idxs = "filter (\<lambda>i. lineMatches (searchTermsOf keywords) (?lines ! i)) [0..<length ?lines]"
  have "map (contextAt ?lines) ?idxs
      = map (\<lambda>i. trim (join [CHR 10] (lineWindow ?lines i))) ?idxs"
    by (rule map_cong) (auto simp: contextAt_window)
  then have "candidateSnippets (searchTermsOf keywords) ?lines [0..<length ?lines]
      = filter (\<lambda>snippet. snippet \<noteq> [])
          (map (\<lambda>i. trim (join [CHR 10] (lineWindow ?lines i))) ?idxs)"
    unfolding candidateSnippets_def by (rule arg_cong)
  then show ?thesis
    unfolding snippetsOf_def Let_def lineMatches_def includesStr_def by (simp only:)
qed


lemma searchFile_eq:
  "searchFile (searchTermsOf keywords) e
     = (if allTermsOccur keywords (d_content e) \<and> hasNonSpace (d_content e)
        then Some \<lparr>h_file = d_name e, h_matches = snippetsOf keywords (d_content e)\<rparr>
        else None)"
proof (cases "allTermsOccur keywords (d_content e)")
  case False
  then show ?thesis
    by (simp add: searchFile_def allTermsOccur_def includesStr_def Let_def)
next
  case True
  then have all: "list_all (\<lambda>t. sublist t (toLowerCase (d_content e))) (searchTermsOf keywords)"
    by (simp add: allTermsOccur_def)
  let ?lines = "splitLines (d_content e)"
  let ?cands = "candidateSnippets (searchTermsOf keywords) ?lines [0..<length ?lines]"
  have cm: "collectMatches (searchTermsOf keywords) ?lines [0..<length ?lines] []
      = firstOccurrenceWins ?cands"
    by (simp add: collectMatches_eq)
  have ne: "firstOccurrenceWins ?cands \<noteq> [] \<longleftrightarrow> hasNonSpace (d_content e)"
    using candidateSnippets_nonempty_iff[OF refl all]
    by (simp add: firstOccurrenceWins_Nil_iff)
  have sn: "snippetsOf keywords (d_content e) = take 5 (firstOccurrenceWins ?cands)"
    by (rule snippetsOf_candidates)
  show ?thesis
    using True all ne
    by (simp add: searchFile_def includesStr_def Let_def cm sn)
qed

lemma map_filter_if:
  "List.map_filter (\<lambda>x. if P x then Some (f x) else None) xs = map f (filter P xs)"
  by (induction xs) (simp_all add: List.map_filter_simps)

lemma searchResearch_eq:
  "searchResearch entries keywords
     = map (\<lambda>e. \<lparr>h_file = d_name e, h_matches = snippetsOf keywords (d_content e)\<rparr>)
         (filter (\<lambda>e. isThreadFile e \<and> allTermsOccur keywords (d_content e)
                      \<and> hasNonSpace (d_content e)) entries)"
proof -
  have "searchResearch entries keywords
      = List.map_filter (searchFile (searchTermsOf keywords)) (filter isThreadFile entries)"
    by (simp add: searchResearch_def searchTermsOf_def Let_def)
  also have "\<dots> = map (\<lambda>e. \<lparr>h_file = d_name e, h_matches = snippetsOf keywords (d_content e)\<rparr>)
         (filter (\<lambda>e. allTermsOccur keywords (d_content e) \<and> hasNonSpace (d_content e))
            (filter isThreadFile entries))"
  proof -
    have "searchFile (searchTermsOf keywords)
        = (\<lambda>e. if allTermsOccur keywords (d_content e) \<and> hasNonSpace (d_content e)
               then Some \<lparr>h_file = d_name e, h_matches = snippetsOf keywords (d_content e)\<rparr>
               else None)"
      by (rule ext) (rule searchFile_eq)
    then show ?thesis by (simp only: map_filter_if)
  qed
  finally show ?thesis by (simp add: conj_commute conj_left_commute)
qed


lemma allTermsOccur_nonspace:
  assumes "hasNonSpace keywords" "allTermsOccur keywords text"
  shows "hasNonSpace text"
proof -
  from assms(1) obtain c where c: "c \<in> set keywords" "\<not> isSpace c"
    by (auto simp: hasNonSpace_iff)
  then have "toLowerChar c \<in> set (toLowerCase keywords)" "\<not> isSpace (toLowerChar c)"
    by (simp_all add: toLowerCase_def isSpace_toLowerChar)
  then obtain t where t: "t \<in> set (searchTermsOf keywords)" "toLowerChar c \<in> set t"
    using nonspace_in_term unfolding searchTermsOf_def by blast
  from assms(2) t(1) have "sublist t (toLowerCase text)"
    by (simp add: allTermsOccur_def list_all_iff)
  with t(2) have "toLowerChar c \<in> set (toLowerCase text)"
    by (meson set_mono_sublist subsetD)
  then obtain d where d: "d \<in> set text" "toLowerChar c = toLowerChar d"
    by (auto simp: toLowerCase_def)
  with c(2) have "\<not> isSpace d" by (metis isSpace_toLowerChar)
  with d(1) show ?thesis by (auto simp: hasNonSpace_iff)
qed

lemma snippetsOf_bounds:
  "length (snippetsOf keywords text) \<le> 5" "distinct (snippetsOf keywords text)"
  by (simp_all add: snippetsOf_def Let_def distinct_firstOccurrenceWins)

lemma snippetsOf_nonempty:
  assumes "allTermsOccur keywords text" "hasNonSpace text"
  shows "snippetsOf keywords text \<noteq> []"
proof -
  let ?lines = "splitLines text"
  let ?cands = "candidateSnippets (searchTermsOf keywords) ?lines [0..<length ?lines]"
  from assms(1) have all: "list_all (\<lambda>t. sublist t (toLowerCase text)) (searchTermsOf keywords)"
    by (simp add: allTermsOccur_def)
  have "?cands \<noteq> []" using candidateSnippets_nonempty_iff[OF refl all] assms(2) by simp
  then have "firstOccurrenceWins ?cands \<noteq> []" by (simp add: firstOccurrenceWins_Nil_iff)
  moreover have "snippetsOf keywords text = take 5 (firstOccurrenceWins ?cands)"
    by (rule snippetsOf_candidates)
  ultimately show ?thesis by simp
qed

text \<open>
  C9 (amended). \<open>searchResearch\<close> returns, in directory order, the regular \<open>.md\<close> files
  in whose content every term occurs (lower-cased, as a substring, on whatever lines)
  and whose content has a non-whitespace character, each with its snippets. When the
  keywords have a non-whitespace character, a content in which every term occurs has
  one too, so then a file is returned iff every term occurs. The snippets of a returned
  file are at least 1 and at most 5, without repeats: the trimmed windows (line before,
  matching line, line after) of the lines holding some term, in file order.
\<close>

theorem searchResearch_all_terms:
  "searchResearch entries keywords
     = map (\<lambda>e. \<lparr>h_file = d_name e, h_matches = snippetsOf keywords (d_content e)\<rparr>)
         (filter (\<lambda>e. isThreadFile e \<and> allTermsOccur keywords (d_content e)
                      \<and> hasNonSpace (d_content e)) entries)
   \<and> (hasNonSpace keywords \<and> allTermsOccur keywords text \<longrightarrow> hasNonSpace text)
   \<and> (allTermsOccur keywords text \<and> hasNonSpace text \<longrightarrow> snippetsOf keywords text \<noteq> [])
   \<and> length (snippetsOf keywords text) \<le> 5
   \<and> distinct (snippetsOf keywords text)"
  using searchResearch_eq [of entries "keywords"] allTermsOccur_nonspace [of "keywords" "text"]
    snippetsOf_nonempty [of "keywords" "text"] snippetsOf_bounds [of "keywords" "text"]
  by blast

lemma twoTerms_eval:
  "searchResearch [twoTermsThread, oneTermThread, rawDirEntry] ''alpha beta''
     = [\<lparr>h_file = ''alpha-beta.md'',
         h_matches = [''Alpha one'' @ [CHR 10] @ ''middle'',
                      ''middle'' @ [CHR 10] @ ''BETA two'']\<rparr>]"
  by code_simp

lemma twoTerms_keywords: "hasNonSpace ''alpha beta''"
  by code_simp

lemma twoTerms_occur: "allTermsOccur ''alpha beta'' (d_content twoTermsThread)"
  by code_simp

lemma oneTerm_not_all: "\<not> allTermsOccur ''alpha beta'' (d_content oneTermThread)"
  by code_simp

theorem searchResearch_all_terms_witness:
  "searchResearch [twoTermsThread, oneTermThread, rawDirEntry] ''alpha beta''
     = [\<lparr>h_file = ''alpha-beta.md'',
         h_matches = [''Alpha one'' @ [CHR 10] @ ''middle'',
                      ''middle'' @ [CHR 10] @ ''BETA two'']\<rparr>]
   \<and> hasNonSpace ''alpha beta''
   \<and> allTermsOccur ''alpha beta'' (d_content twoTermsThread)
   \<and> \<not> allTermsOccur ''alpha beta'' (d_content oneTermThread)
   \<and> hasNonSpace (d_content twoTermsThread)
   \<and> snippetsOf ''alpha beta'' (d_content twoTermsThread) \<noteq> []"
proof -
  note t = searchResearch_all_terms [of "[twoTermsThread, oneTermThread, rawDirEntry]"
      "''alpha beta''" "d_content twoTermsThread"]
  from t twoTerms_keywords twoTerms_occur
  have ns: "hasNonSpace (d_content twoTermsThread)" by blast
  with t twoTerms_occur
  have "snippetsOf ''alpha beta'' (d_content twoTermsThread) \<noteq> []" by blast
  with ns twoTerms_eval twoTerms_keywords twoTerms_occur oneTerm_not_all
  show ?thesis by blast
qed

text \<open>
  C9, as stated, fails on empty keywords and an empty thread file: the only term is the
  empty string, which occurs in the empty content, and the file is not returned.
\<close>

theorem searchResearch_empty_file_counterexample:
  "isThreadFile emptyThread
   \<and> allTermsOccur [] (d_content emptyThread)
   \<and> searchResearch [emptyThread] [] = []"
  by code_simp

lemma blank_allTermsOccur:
  assumes "list_all isSpace keywords"
  shows "allTermsOccur keywords text"
proof -
  have "list_all isSpace (toLowerCase keywords)"
    using assms by (simp add: toLowerCase_def list_all_iff isSpace_toLowerChar)
  then have "\<forall>t\<in>set (searchTermsOf keywords). t = []"
    using splitWhitespace_all_space unfolding searchTermsOf_def by blast
  then show ?thesis by (auto simp: allTermsOccur_def list_all_iff)
qed

text \<open>
  C10 (amended). On empty or whitespace-only keywords \<open>searchResearch\<close> returns exactly
  the regular \<open>.md\<close> files whose content has a non-whitespace character, each with 1 to
  5 snippets; the result is empty exactly when the directory has no such file.
\<close>

theorem searchResearch_blank_keywords:
  assumes "list_all isSpace keywords"
  shows "searchResearch entries keywords
     = map (\<lambda>e. \<lparr>h_file = d_name e, h_matches = snippetsOf keywords (d_content e)\<rparr>)
         (filter (\<lambda>e. isThreadFile e \<and> hasNonSpace (d_content e)) entries)
   \<and> (searchResearch entries keywords = []
        \<longleftrightarrow> \<not> list_ex (\<lambda>e. isThreadFile e \<and> hasNonSpace (d_content e)) entries)
   \<and> list_all (\<lambda>h. h_matches h \<noteq> [] \<and> length (h_matches h) \<le> 5)
        (searchResearch entries keywords)"
proof -
  have all: "\<And>text. allTermsOccur keywords text" using assms by (rule blank_allTermsOccur)
  have eq: "searchResearch entries keywords
     = map (\<lambda>e. \<lparr>h_file = d_name e, h_matches = snippetsOf keywords (d_content e)\<rparr>)
         (filter (\<lambda>e. isThreadFile e \<and> hasNonSpace (d_content e)) entries)"
    by (simp add: searchResearch_eq all)
  have "searchResearch entries keywords = []
        \<longleftrightarrow> \<not> list_ex (\<lambda>e. isThreadFile e \<and> hasNonSpace (d_content e)) entries"
    by (simp add: eq list_ex_iff filter_empty_conv)
  moreover have "list_all (\<lambda>h. h_matches h \<noteq> [] \<and> length (h_matches h) \<le> 5)
        (searchResearch entries keywords)"
    using snippetsOf_nonempty [OF all] by (auto simp: eq list_all_iff snippetsOf_bounds)
  ultimately show ?thesis using eq by blast
qed

lemma blank_keywords: "list_all isSpace '' ''"
  by code_simp

lemma blank_eval:
  "searchResearch [blankThread, oneTermThread, rawDirEntry] '' ''
     = [\<lparr>h_file = ''alpha.md'', h_matches = [''only alpha'']\<rparr>]"
  by code_simp

theorem searchResearch_blank_keywords_witness:
  "list_all isSpace '' ''
   \<and> searchResearch [blankThread, oneTermThread, rawDirEntry] '' ''
       = [\<lparr>h_file = ''alpha.md'', h_matches = [''only alpha'']\<rparr>]
   \<and> list_all (\<lambda>h. h_matches h \<noteq> [] \<and> length (h_matches h) \<le> 5)
        (searchResearch [blankThread, oneTermThread, rawDirEntry] '' '')"
  using searchResearch_blank_keywords [OF blank_keywords,
      of "[blankThread, oneTermThread, rawDirEntry]"] blank_keywords blank_eval
  by blast

text \<open>
  C10, as stated, fails on a directory whose only thread file is not empty but holds
  whitespace only (one line feed): blank keywords return nothing.
\<close>

theorem searchResearch_blank_file_counterexample:
  "isThreadFile blankThread
   \<and> d_content blankThread \<noteq> []
   \<and> list_all isSpace '' ''
   \<and> searchResearch [blankThread] '' '' = []"
  by code_simp


end
